theory Spec2Isabelle
  imports Complex_Main "HOL-Library.Sublist"
begin

section \<open>Strings, numbers and array helpers of the host language\<close>

text \<open>
  Texts are \<^typ>\<open>string\<close>, that is lists of 8-bit code units: the development covers
  documents whose characters lie in the Latin-1 range, where one code unit is one character
  and \<open>length\<close> is the \<open>.length\<close> of the source. The option fields \<open>chunkSize\<close>,
  \<open>overlap\<close> and \<open>maxChunks\<close> are integers (the forms of the application produce them
  with \<open>parseInt\<close>); an absent field is \<open>None\<close>.
\<close>

definition orDefault :: "'a \<Rightarrow> 'a option \<Rightarrow> 'a" where
  "orDefault d x = (case x of None \<Rightarrow> d | Some v \<Rightarrow> v)"

text \<open>The class \<open>\s\<close> of the regular expressions, restricted to 8-bit code units:
  tab, line feed, vertical tab, form feed, carriage return, space and no-break space.\<close>

definition is_space :: "char \<Rightarrow> bool" where
  "is_space c = (c \<in> set [CHR 0x09, CHR 0x0A, CHR 0x0B, CHR 0x0C, CHR 0x0D, CHR 0x20, CHR 0xA0])"

definition trim :: "string \<Rightarrow> string" where
  "trim s = rev (dropWhile is_space (rev (dropWhile is_space s)))"

text \<open>\<open>String.prototype.substring(a, b)\<close>: both bounds are clamped to \<open>[0, length]\<close>
  and swapped when the first exceeds the second.\<close>

definition js_substring :: "string \<Rightarrow> int \<Rightarrow> int \<Rightarrow> string" where
  "js_substring s a b =
     (let n = int (length s);
          a' = min (max a 0) n;
          b' = min (max b 0) n;
          lo = min a' b';
          hi = max a' b'
      in take (nat (hi - lo)) (drop (nat lo) s))"

text \<open>\<open>Array.prototype.slice(a, b)\<close>: a negative bound counts from the end.\<close>

definition js_slice :: "'a list \<Rightarrow> int \<Rightarrow> int \<Rightarrow> 'a list" where
  "js_slice xs a b =
     (let n = int (length xs);
          from = (if a < 0 then max (n + a) 0 else min a n);
          to = (if b < 0 then max (n + b) 0 else min b n)
      in take (nat (to - from)) (drop (nat from) xs))"

text \<open>\<open>Array.prototype.join(sep)\<close>.\<close>

fun js_join :: "string \<Rightarrow> string list \<Rightarrow> string" where
  "js_join sep [] = []"
| "js_join sep [x] = x"
| "js_join sep (x # y # ys) = x @ sep @ js_join sep (y # ys)"

text \<open>
  A regular expression is represented by its anchored matcher: given the text to the left
  of a position (reversed, so that the nearest character comes first) and the text from the
  position on, it returns the length of the match that starts there, if there is one. The
  left context serves the word-boundary and look-behind assertions. Only the
  sentence-boundary expression can match the empty string, and only at the end of the input.
\<close>

type_synonym matcher = "string \<Rightarrow> string \<Rightarrow> nat option"

text \<open>The successive matches of a global expression, as \<open>matchAll\<close> and \<open>match\<close>
  enumerate them: pairs of start index and length, leftmost first and never overlapping;
  after an empty match the search moves on by one character.\<close>

function match_all :: "matcher \<Rightarrow> string \<Rightarrow> nat \<Rightarrow> string \<Rightarrow> (nat \<times> nat) list" where
  "match_all m bef pos [] = (case m bef [] of None \<Rightarrow> [] | Some n \<Rightarrow> [(pos, 0)])"
| "match_all m bef pos (c # cs) =
     (case m bef (c # cs) of
        None \<Rightarrow> match_all m (c # bef) (pos + 1) cs
      | Some n \<Rightarrow>
          if n = 0 then (pos, 0) # match_all m (c # bef) (pos + 1) cs
          else (pos, n) # match_all m (rev (take n (c # cs)) @ bef) (pos + n) (drop n (c # cs)))"
  by pat_completeness auto
termination
  by (relation "measure (\<lambda>(m, bef, pos, s). length s)") auto

text \<open>\<open>String.prototype.split\<close> with an expression: the pieces between the successive
  matches; \<open>cur\<close> is the piece being read. \<open>split\<close> never examines the end of the input,
  which is the only place of an empty match.\<close>

function rx_split_from :: "matcher \<Rightarrow> string \<Rightarrow> string \<Rightarrow> string \<Rightarrow> string list" where
  "rx_split_from m bef cur [] = [cur]"
| "rx_split_from m bef cur (c # cs) =
     (case m bef (c # cs) of
        None \<Rightarrow> rx_split_from m (c # bef) (cur @ [c]) cs
      | Some n \<Rightarrow>
          if n = 0 then rx_split_from m (c # bef) (cur @ [c]) cs
          else cur # rx_split_from m (rev (take n (c # cs)) @ bef) [] (drop n (c # cs)))"
  by pat_completeness auto
termination
  by (relation "measure (\<lambda>(m, bef, cur, s). length s)") auto

definition rx_split :: "matcher \<Rightarrow> string \<Rightarrow> string list" where
  "rx_split m s = rx_split_from m [] [] s"

text \<open>\<open>String.prototype.replace\<close> with a global expression: every match is replaced by
  \<open>f\<close> of the matched text, in one pass from left to right; the replacement text is not
  searched again.\<close>

function rx_replace_from :: "matcher \<Rightarrow> (string \<Rightarrow> string) \<Rightarrow> string \<Rightarrow> string \<Rightarrow> string" where
  "rx_replace_from m f bef [] = []"
| "rx_replace_from m f bef (c # cs) =
     (case m bef (c # cs) of
        None \<Rightarrow> c # rx_replace_from m f (c # bef) cs
      | Some n \<Rightarrow>
          if n = 0 then c # rx_replace_from m f (c # bef) cs
          else f (take n (c # cs)) @ rx_replace_from m f (rev (take n (c # cs)) @ bef) (drop n (c # cs)))"
  by pat_completeness auto
termination
  by (relation "measure (\<lambda>(m, f, bef, s). length s)") auto

definition rx_replace :: "matcher \<Rightarrow> (string \<Rightarrow> string) \<Rightarrow> string \<Rightarrow> string" where
  "rx_replace m f s = rx_replace_from m f [] s"

text \<open>\<open>RegExp.prototype.test\<close>: is there a match anywhere.\<close>

fun rx_test_from :: "matcher \<Rightarrow> string \<Rightarrow> string \<Rightarrow> bool" where
  "rx_test_from m bef [] = (m bef [] \<noteq> None)"
| "rx_test_from m bef (c # cs) = (m bef (c # cs) \<noteq> None \<or> rx_test_from m (c # bef) cs)"

definition rx_test :: "matcher \<Rightarrow> string \<Rightarrow> bool" where
  "rx_test m s = rx_test_from m [] s"

text \<open>The end of the last match of an expression in a string, if it matches at all.\<close>

definition lastMatchEnd :: "matcher \<Rightarrow> string \<Rightarrow> nat option" where
  "lastMatchEnd m s = (case rev (match_all m [] 0 s) of [] \<Rightarrow> None | (k, n) # ms \<Rightarrow> Some (k + n))"

text \<open>Character classes: \<^verbatim>\<open>\w\<close>, \<^verbatim>\<open>[A-Z]\<close>, \<^verbatim>\<open>\d\<close>.\<close>

definition is_upper :: "char \<Rightarrow> bool" where
  "is_upper c = (c \<in> set ''ABCDEFGHIJKLMNOPQRSTUVWXYZ'')"

definition is_digit :: "char \<Rightarrow> bool" where
  "is_digit c = (c \<in> set ''0123456789'')"

definition is_word_char :: "char \<Rightarrow> bool" where
  "is_word_char c = (is_upper c \<or> is_digit c \<or> c \<in> set ''abcdefghijklmnopqrstuvwxyz_'')"

text \<open>\<^verbatim>\<open>\b\<close> in front of a word character: the character to the left is not one.\<close>

definition word_start :: "string \<Rightarrow> bool" where
  "word_start bef = (case bef of [] \<Rightarrow> True | c # cs \<Rightarrow> \<not> is_word_char c)"

text \<open>A literal string as an expression.\<close>

definition rx_literal :: "string \<Rightarrow> matcher" where
  "rx_literal lit bef s = (if lit \<noteq> [] \<and> prefix lit s then Some (length lit) else None)"

text \<open>The expression \<^verbatim>\<open>/\s+/\<close>.\<close>

definition rx_spaces :: matcher where
  "rx_spaces bef s = (case takeWhile is_space s of [] \<Rightarrow> None | w # ws \<Rightarrow> Some (length (w # ws)))"

text \<open>The expression \<^verbatim>\<open>/\n/\<close>.\<close>

definition rx_newline :: matcher where
  "rx_newline bef s = (case s of [] \<Rightarrow> None | c # cs \<Rightarrow> if c = CHR 0x0A then Some 1 else None)"

text \<open>The expression \<^verbatim>\<open>/\n\s*\n/\<close>: a line feed, then the longest run of spaces
  that still ends in a line feed.\<close>

definition lastNewline :: "string \<Rightarrow> nat option" where
  "lastNewline ws = (case filter (\<lambda>k. ws ! k = CHR 0x0A) (rev [0..<length ws]) of
                      [] \<Rightarrow> None | k # ks \<Rightarrow> Some k)"

definition rx_blankline :: matcher where
  "rx_blankline bef s =
     (case s of
        [] \<Rightarrow> None
      | c # cs \<Rightarrow>
          if c = CHR 0x0A then
            (case lastNewline (takeWhile is_space cs) of None \<Rightarrow> None | Some k \<Rightarrow> Some (k + 2))
          else None)"

text \<open>The expression \<^verbatim>\<open>/[.!?]\s+/\<close>.\<close>

definition rx_sentenceBreak :: matcher where
  "rx_sentenceBreak bef s =
     (case s of
        [] \<Rightarrow> None
      | c # cs \<Rightarrow>
          if c \<in> set ''.!?'' then
            (case takeWhile is_space cs of [] \<Rightarrow> None | w # ws \<Rightarrow> Some (length (w # ws) + 1))
          else None)"

text \<open>Pieces of a string between the characters that satisfy \<open>p\<close>.\<close>

fun split_on :: "(char \<Rightarrow> bool) \<Rightarrow> string \<Rightarrow> string list" where
  "split_on p [] = [[]]"
| "split_on p (c # cs) =
     (if p c then [] # split_on p cs
      else (case split_on p cs of [] \<Rightarrow> [[c]] | w # ws \<Rightarrow> (c # w) # ws))"

text \<open>Decimal rendering of a number inside a template literal.\<close>

definition digit_char :: "nat \<Rightarrow> char" where
  "digit_char d = ''0123456789'' ! d"

function show_nat :: "nat \<Rightarrow> string" where
  "show_nat n = (if n < 10 then [digit_char n] else show_nat (n div 10) @ [digit_char (n mod 10)])"
  by pat_completeness auto
termination
  by (relation "measure (\<lambda>n. n)") auto

declare show_nat.simps [simp del]

definition show_int :: "int \<Rightarrow> string" where
  "show_int i = (if i < 0 then CHR ''-'' # show_nat (nat (- i)) else show_nat (nat i))"

text \<open>\<open>Math.round(t / n)\<close> for natural \<open>t\<close> and positive \<open>n\<close>: halves round up.\<close>

definition round_div :: "nat \<Rightarrow> nat \<Rightarrow> nat" where
  "round_div t n = (2 * t + n) div (2 * n)"

text \<open>\<open>Math.ceil(a / b)\<close> for integers \<open>a\<close> and positive \<open>b\<close>.\<close>

definition ceil_div :: "int \<Rightarrow> int \<Rightarrow> int" where
  "ceil_div a b = - ((- a) div b)"

section \<open>Data model\<close>

datatype ChunkingMode = Tokens | Characters

record ChunkingOptions =
  chunkSize :: "int option"
  overlap :: "int option"
  separator :: "string option"
  maxChunks :: "int option"
  apiKey :: "string option"
  chunkingMode :: "ChunkingMode option"
  customSeparators :: "string list option"

record Chunk =
  chunk_id :: nat
  chunk_text :: string
  chunk_tokens :: nat
  chunk_characters :: nat

record AverageChunkSize =
  avg_tokens :: nat
  avg_characters :: nat

record Analysis =
  totalChunks :: nat
  averageChunkSize :: AverageChunkSize
  notes_of :: string

record ChunkingResult =
  chunks :: "Chunk list"
  analysis :: Analysis

definition noOptions :: ChunkingOptions where
  "noOptions = \<lparr>chunkSize = None, overlap = None, separator = None, maxChunks = None,
     apiKey = None, chunkingMode = None, customSeparators = None\<rparr>"

text \<open>\<open>tokenize\<close>: \<open>text.split(/\s+/).filter(Boolean)\<close>, the maximal runs of
  non-space characters.\<close>

definition tokenize :: "string \<Rightarrow> string list" where
  "tokenize text = filter (\<lambda>w. w \<noteq> []) (split_on is_space text)"

definition countTokens :: "string \<Rightarrow> nat" where
  "countTokens text = length (tokenize text)"

text \<open>The summary every strategy computes from its final chunk list: the count and the
  rounded mean sizes, \<open>0\<close> for an empty list.\<close>

definition averages :: "Chunk list \<Rightarrow> AverageChunkSize" where
  "averages cs =
     \<lparr>avg_tokens = (if cs \<noteq> [] then round_div (sum_list (map chunk_tokens cs)) (length cs) else 0),
      avg_characters = (if cs \<noteq> [] then round_div (sum_list (map chunk_characters cs)) (length cs) else 0)\<rparr>"

definition mkResult :: "Chunk list \<Rightarrow> string \<Rightarrow> ChunkingResult" where
  "mkResult cs n =
     \<lparr>chunks = cs, analysis = \<lparr>totalChunks = length cs, averageChunkSize = averages cs, notes_of = n\<rparr>\<rparr>"

text \<open>A chunk whose token count is recomputed from its text.\<close>

definition textChunk :: "nat \<Rightarrow> string \<Rightarrow> Chunk" where
  "textChunk i t = \<lparr>chunk_id = i, chunk_text = t, chunk_tokens = countTokens t, chunk_characters = length t\<rparr>"

section \<open>Fixed-length chunking\<close>

text \<open>The legacy character loop of \<open>fixedLengthChunking\<close>. The loop has no bound of its
  own, so it is a partial function: \<open>None\<close> is the loop that never leaves.\<close>

partial_function (option) fixedCharsLoop ::
  "string \<Rightarrow> int \<Rightarrow> int \<Rightarrow> int \<Rightarrow> Chunk list \<Rightarrow> Chunk list option" where
  "fixedCharsLoop text cSize step i cs =
     (if i < int (length text) then
        (if 4 * int (length (js_substring text i (i + cSize))) < cSize \<and> cs \<noteq> [] then Some cs
         else fixedCharsLoop text cSize step (i + step)
                (cs @ [textChunk (length cs) (js_substring text i (i + cSize))]))
      else Some cs)"

declare fixedCharsLoop.simps [code]

text \<open>The token loop of \<open>fixedLengthChunking\<close>.\<close>

definition tokenChunk :: "nat \<Rightarrow> string list \<Rightarrow> Chunk" where
  "tokenChunk i ts = \<lparr>chunk_id = i, chunk_text = js_join '' '' ts, chunk_tokens = length ts,
     chunk_characters = length (js_join '' '' ts)\<rparr>"

partial_function (option) fixedTokensLoop ::
  "string list \<Rightarrow> int \<Rightarrow> int \<Rightarrow> int \<Rightarrow> Chunk list \<Rightarrow> Chunk list option" where
  "fixedTokensLoop toks cSize step i cs =
     (if i < int (length toks) then
        (if 4 * int (length (js_slice toks i (i + cSize))) < cSize \<and> cs \<noteq> [] then Some cs
         else fixedTokensLoop toks cSize step (i + step)
                (cs @ [tokenChunk (length cs) (js_slice toks i (i + cSize))]))
      else Some cs)"

declare fixedTokensLoop.simps [code]

section \<open>Boundary-snapping character chunking\<close>

text \<open>\<open>findBreakPoint\<close>: look back from the target position over a fifth of the chunk
  size (\<open>Math.ceil(effectiveChunkSize * 0.2)\<close>, which is the integer ceiling of a fifth
  for every size that occurs) for the last sentence, paragraph, line or word break.\<close>

definition findBreakPoint :: "int \<Rightarrow> string \<Rightarrow> int \<Rightarrow> int" where
  "findBreakPoint ecs text targetPos =
     (let searchRange = min targetPos (ceil_div ecs 5);
          minPos = targetPos - searchRange;
          searchText = js_substring text minPos targetPos
      in case lastMatchEnd rx_sentenceBreak searchText of
           Some e \<Rightarrow> minPos + int e
         | None \<Rightarrow>
        (case lastMatchEnd rx_blankline searchText of
           Some e \<Rightarrow> minPos + int e
         | None \<Rightarrow>
        (case lastMatchEnd rx_newline searchText of
           Some e \<Rightarrow> minPos + int e
         | None \<Rightarrow>
        (case lastMatchEnd rx_spaces searchText of
           Some e \<Rightarrow> minPos + int e
         | None \<Rightarrow> targetPos))))"

definition snapEnd :: "int \<Rightarrow> string \<Rightarrow> int \<Rightarrow> int" where
  "snapEnd ecs text i =
     (let endPos = min (i + ecs) (int (length text))
      in if endPos < int (length text) then findBreakPoint ecs text endPos else endPos)"

definition effectiveChunkSize :: "ChunkingOptions \<Rightarrow> int" where
  "effectiveChunkSize options = max 10 (orDefault 500 (chunkSize options))"

definition effectiveOverlap :: "ChunkingOptions \<Rightarrow> int" where
  "effectiveOverlap options =
     min (effectiveChunkSize options - 1) (max 0 (orDefault 50 (overlap options)))"

definition snapStep :: "ChunkingOptions \<Rightarrow> int" where
  "snapStep options = effectiveChunkSize options - effectiveOverlap options"

text \<open>The loop of \<open>fixedLengthCharsChunking\<close>; a non-empty \<open>separator\<close> is appended to
  every chunk, and appending the empty one changes nothing. The step is at least one by the
  clamp of the overlap, so the loop is total.\<close>

definition snapText :: "string \<Rightarrow> ChunkingOptions \<Rightarrow> int \<Rightarrow> string" where
  "snapText text options i = js_substring text i (snapEnd (effectiveChunkSize options) text i)"

function snapLoop :: "string \<Rightarrow> ChunkingOptions \<Rightarrow> int \<Rightarrow> Chunk list \<Rightarrow> Chunk list" where
  "snapLoop text options i cs =
     (if i < int (length text) then
        (if 4 * int (length (snapText text options i)) < effectiveChunkSize options \<and> cs \<noteq> [] then cs
         else if orDefault 0 (maxChunks options) > 0 \<and> int (length cs) + 1 \<ge> orDefault 0 (maxChunks options)
           then cs @ [textChunk (length cs) (snapText text options i @ orDefault [] (separator options))]
         else snapLoop text options (i + snapStep options)
                (cs @ [textChunk (length cs) (snapText text options i @ orDefault [] (separator options))]))
      else cs)"
  by pat_completeness auto
termination
proof (relation "measure (\<lambda>(text, options, i, cs). nat (int (length text) - i))")
  show "wf (measure (\<lambda>(text, options, i, cs). nat (int (length text) - i)))"
    by simp
next
  fix t :: string and options :: ChunkingOptions and i :: int and cs :: "Chunk list"
  assume "i < int (length t)"
  moreover have "1 \<le> snapStep options"
    by (simp add: snapStep_def effectiveOverlap_def)
  ultimately show
    "((t, options, i + snapStep options,
       cs @ [textChunk (length cs) (snapText t options i @ orDefault [] (separator options))]),
      (t, options, i, cs)) \<in> measure (\<lambda>(text, options, i, cs). nat (int (length text) - i))"
    by simp
qed

declare snapLoop.simps [simp del]

definition snapNotes :: "nat \<Rightarrow> int \<Rightarrow> int \<Rightarrow> string" where
  "snapNotes n ecs eov =
     ''Text was divided into '' @ show_nat n @ '' chunks of approximately '' @ show_int ecs @
     '' characters each'' @
     (if eov > 0 then '' with '' @ show_int eov @ '' characters of overlap between consecutive chunks''
      else []) @
     ''. Smart boundary detection was used to preserve natural text breaks.''"

definition fixedLengthCharsChunking :: "string \<Rightarrow> ChunkingOptions \<Rightarrow> ChunkingResult" where
  "fixedLengthCharsChunking text options =
     mkResult (snapLoop text options 0 [])
       (snapNotes (length (snapLoop text options 0 [])) (effectiveChunkSize options) (effectiveOverlap options))"

section \<open>Fixed-length chunking: the entry point\<close>

definition fixedStep :: "int \<Rightarrow> int \<Rightarrow> int" where
  "fixedStep cSize ov = (if ov > 0 then cSize - ov else cSize)"

definition fixedNotes :: "nat \<Rightarrow> int \<Rightarrow> int \<Rightarrow> string \<Rightarrow> string" where
  "fixedNotes n cSize ov unit =
     ''Text was divided into '' @ show_nat n @ '' chunks of approximately '' @ show_int cSize @
     '' '' @ unit @ '' each'' @
     (if ov > 0 then '' with '' @ show_int ov @ '' '' @ unit @ '' of overlap between consecutive chunks''
      else []) @ ''.''"

definition isCharacterBased :: "ChunkingOptions \<Rightarrow> bool" where
  "isCharacterBased options =
     (chunkingMode options = Some Characters \<or>
      (chunkingMode options \<noteq> Some Tokens \<and> orDefault 100 (chunkSize options) > 200))"

definition fixedLengthChunking :: "string \<Rightarrow> ChunkingOptions \<Rightarrow> ChunkingResult option" where
  "fixedLengthChunking text options =
     (let cSize = orDefault 100 (chunkSize options); ov = orDefault 0 (overlap options)
      in if isCharacterBased options then
           (if chunkingMode options = Some Characters then Some (fixedLengthCharsChunking text options)
            else (case fixedCharsLoop text cSize (fixedStep cSize ov) 0 [] of
                    None \<Rightarrow> None
                  | Some cs \<Rightarrow> Some (mkResult cs (fixedNotes (length cs) cSize ov ''characters''))))
         else (case fixedTokensLoop (tokenize text) cSize (fixedStep cSize ov) 0 [] of
                 None \<Rightarrow> None
               | Some cs \<Rightarrow> Some (mkResult cs (fixedNotes (length cs) cSize ov ''tokens''))))"

section \<open>Sliding-window chunking\<close>

text \<open>Both loops of \<open>slidingWindowChunking\<close> leave once \<open>maxChunks = 100\<close> chunks exist,
  so they are total whatever the step is.\<close>

function slidingCharsLoop ::
  "string \<Rightarrow> int \<Rightarrow> int \<Rightarrow> int \<Rightarrow> Chunk list \<Rightarrow> Chunk list" where
  "slidingCharsLoop text cSize stp i cs =
     (if i < int (length text) then
        (if 4 * int (length (js_substring text i (min (i + cSize) (int (length text))))) < cSize \<and> cs \<noteq> []
           then cs
         else if length cs + 1 \<ge> 100
           then cs @ [textChunk (length cs) (js_substring text i (min (i + cSize) (int (length text))))]
         else slidingCharsLoop text cSize stp (i + stp)
                (cs @ [textChunk (length cs) (js_substring text i (min (i + cSize) (int (length text))))]))
      else cs)"
  by pat_completeness auto
termination
  by (relation "measure (\<lambda>(text, cSize, stp, i, cs). 100 - length cs)") auto

declare slidingCharsLoop.simps [simp del]

function slidingTokensLoop ::
  "string list \<Rightarrow> int \<Rightarrow> int \<Rightarrow> int \<Rightarrow> Chunk list \<Rightarrow> Chunk list" where
  "slidingTokensLoop toks cSize stp i cs =
     (if i < int (length toks) then
        (if 4 * int (length (js_slice toks i (min (i + cSize) (int (length toks))))) < cSize \<and> cs \<noteq> []
           then cs
         else if length cs + 1 \<ge> 100
           then cs @ [tokenChunk (length cs) (js_slice toks i (min (i + cSize) (int (length toks))))]
         else slidingTokensLoop toks cSize stp (i + stp)
                (cs @ [tokenChunk (length cs) (js_slice toks i (min (i + cSize) (int (length toks))))]))
      else cs)"
  by pat_completeness auto
termination
  by (relation "measure (\<lambda>(toks, cSize, stp, i, cs). 100 - length cs)") auto

declare slidingTokensLoop.simps [simp del]

definition slidingStep :: "int \<Rightarrow> int \<Rightarrow> int" where
  "slidingStep cSize ov = max 1 (cSize - ov)"

definition adjustedStep :: "nat \<Rightarrow> int \<Rightarrow> int" where
  "adjustedStep len step =
     (if ceil_div (int len) step > 100 then ceil_div (int len) 100 else step)"

definition slidingNotes :: "nat \<Rightarrow> int \<Rightarrow> int \<Rightarrow> int \<Rightarrow> string \<Rightarrow> string" where
  "slidingNotes n cSize ov stp unit =
     ''Sliding window created '' @ show_nat n @ '' chunks with window size '' @ show_int cSize @
     '' '' @ unit @ '' and '' @ show_int ov @ '' '' @ unit @ '' of overlap (step size: '' @
     show_int stp @ '').''"

definition slidingUnits :: "string \<Rightarrow> ChunkingOptions \<Rightarrow> nat" where
  "slidingUnits text options =
     (if orDefault 100 (chunkSize options) > 200 then length text else length (tokenize text))"

definition naturalStep :: "ChunkingOptions \<Rightarrow> int" where
  "naturalStep options = slidingStep (orDefault 100 (chunkSize options)) (orDefault 50 (overlap options))"

definition slidingEffectiveStep :: "string \<Rightarrow> ChunkingOptions \<Rightarrow> int" where
  "slidingEffectiveStep text options = adjustedStep (slidingUnits text options) (naturalStep options)"

definition slidingWindowChunking :: "string \<Rightarrow> ChunkingOptions \<Rightarrow> ChunkingResult" where
  "slidingWindowChunking text options =
     (let cSize = orDefault 100 (chunkSize options); ov = orDefault 50 (overlap options);
          stp = slidingEffectiveStep text options
      in if cSize > 200 then
           (let cs = slidingCharsLoop text cSize stp 0 []
            in mkResult cs (slidingNotes (length cs) cSize ov stp ''characters''))
         else
           (let cs = slidingTokensLoop (tokenize text) cSize stp 0 []
            in mkResult cs (slidingNotes (length cs) cSize ov stp ''tokens'')))"

section \<open>Sentence-based chunking\<close>

text \<open>The expression \<^verbatim>\<open>/(\b(?:Mr|Mrs|Ms|Dr|Prof)\.\s+)([A-Z])/\<close> of \<open>preprocessText\<close>.\<close>

definition rx_title :: matcher where
  "rx_title bef s =
     (if word_start bef then
        (case find (\<lambda>a. prefix (a @ ''.'') s) [''Mr'', ''Mrs'', ''Ms'', ''Dr'', ''Prof''] of
           None \<Rightarrow> None
         | Some a \<Rightarrow>
             (case takeWhile is_space (drop (length a + 1) s) of
                [] \<Rightarrow> None
              | w # ws \<Rightarrow>
                  (case dropWhile is_space (drop (length a + 1) s) of
                     [] \<Rightarrow> None
                   | c # cs \<Rightarrow> if is_upper c then Some (length a + 1 + length (w # ws) + 1) else None)))
      else None)"

text \<open>The expression \<^verbatim>\<open>/(\d+\.\d+)/\<close> of \<open>preprocessText\<close>.\<close>

definition rx_decimal :: matcher where
  "rx_decimal bef s =
     (case takeWhile is_digit s of
        [] \<Rightarrow> None
      | d # ds \<Rightarrow>
          (case dropWhile is_digit s of
             [] \<Rightarrow> None
           | c # r \<Rightarrow>
               if c = CHR ''.'' then
                 (case takeWhile is_digit r of [] \<Rightarrow> None | e # es \<Rightarrow> Some (length (d # ds) + 1 + length (e # es)))
               else None))"

definition preprocessText :: "string \<Rightarrow> string" where
  "preprocessText input =
     rx_replace rx_decimal (\<lambda>t. t @ ''_DECIMAL_'')
       (rx_replace rx_title (\<lambda>t. butlast t @ ''_PLACEHOLDER_'' @ [last t]) input)"

definition postprocessText :: "string \<Rightarrow> string" where
  "postprocessText input =
     rx_replace (rx_literal ''_DECIMAL_'') (\<lambda>t. [])
       (rx_replace (rx_literal ''_PLACEHOLDER_'') (\<lambda>t. []) input)"

text \<open>The sentence-boundary expression. Its three look-behind assertions read the left
  context: no abbreviation followed by a full stop, no \<^verbatim>\<open>\w\.\w.\<close>, and a terminal
  punctuation mark right before the position. Then come the spaces (or the end of the input),
  followed by an opening character or by nothing but the end.\<close>

definition abbreviations :: "string list" where
  "abbreviations = [''Mr'', ''Mrs'', ''Ms'', ''Dr'', ''Prof'', ''Rev'', ''Col'', ''Gen'', ''Lt'', ''Cmdr'',
     ''Sgt'', ''Capt'', ''Maj'', ''Sen'', ''Rep'', ''Hon'', ''etc'', ''vs'', ''i.e'', ''e.g'']"

definition abbreviation_before :: "string \<Rightarrow> bool" where
  "abbreviation_before bef =
     list_ex (\<lambda>a. prefix (rev (a @ ''.'')) bef \<and> word_start (drop (length a + 1) bef)) abbreviations"

definition dotted_before :: "string \<Rightarrow> bool" where
  "dotted_before bef =
     (case bef of
        c4 # c3 # c2 # c1 # cs \<Rightarrow>
          c4 \<noteq> CHR 0x0A \<and> c4 \<noteq> CHR 0x0D \<and> is_word_char c3 \<and> c2 = CHR ''.'' \<and> is_word_char c1
      | _ \<Rightarrow> False)"

definition terminal_before :: "string \<Rightarrow> bool" where
  "terminal_before bef = (case bef of [] \<Rightarrow> False | c # cs \<Rightarrow> c \<in> set ''.?!'')"

definition is_opening :: "char \<Rightarrow> bool" where
  "is_opening c = (is_upper c \<or> c \<in> set [CHR 0x22, CHR 0x27, CHR ''('', CHR ''['', CHR ''{'', CHR ''<''])"

definition rx_sentenceEnd :: matcher where
  "rx_sentenceEnd bef s =
     (if \<not> abbreviation_before bef \<and> \<not> dotted_before bef \<and> terminal_before bef then
        (case takeWhile is_space s of
           [] \<Rightarrow> (if s = [] then Some 0 else None)
         | w # ws \<Rightarrow>
             (case dropWhile is_space s of
                [] \<Rightarrow> Some (length (w # ws))
              | c # cs \<Rightarrow> if is_opening c then Some (length (w # ws)) else None))
      else None)"

definition hasTerminal :: "string \<Rightarrow> bool" where
  "hasTerminal paragraph = list_ex (\<lambda>c. c \<in> set ''.!?'') paragraph"

definition paragraphSentences :: "string \<Rightarrow> string list" where
  "paragraphSentences paragraph =
     (if \<not> hasTerminal paragraph then [postprocessText paragraph]
      else (case filter (\<lambda>s. s \<noteq> [])
                   (map (\<lambda>s. postprocessText (trim s)) (rx_split rx_sentenceEnd paragraph)) of
              [] \<Rightarrow> [postprocessText paragraph]
            | p # ps \<Rightarrow> p # ps))"

definition allSentences :: "string \<Rightarrow> string list" where
  "allSentences text =
     (case concat (map paragraphSentences
                    (filter (\<lambda>p. p \<noteq> []) (rx_split rx_blankline (preprocessText text)))) of
        [] \<Rightarrow> [text]
      | s # ss \<Rightarrow> s # ss)"

text \<open>The grouping loop. It has no bound of its own.\<close>

partial_function (option) sentenceLoop ::
  "string list \<Rightarrow> int \<Rightarrow> int \<Rightarrow> int \<Rightarrow> Chunk list \<Rightarrow> Chunk list option" where
  "sentenceLoop ss cSize step i cs =
     (if i < int (length ss) then
        (if (length (js_slice ss i (i + cSize)) < 1 \<or> 4 * int (length (js_slice ss i (i + cSize))) < cSize)
            \<and> cs \<noteq> [] then Some cs
         else sentenceLoop ss cSize step (i + step)
                (cs @ [textChunk (length cs) (js_join '' '' (js_slice ss i (i + cSize)))]))
      else Some cs)"

declare sentenceLoop.simps [code]

definition sentencesToProcess :: "string list \<Rightarrow> int \<Rightarrow> int \<Rightarrow> string list" where
  "sentencesToProcess ss cSize mx = js_slice ss 0 (if mx > 0 then mx * cSize else int (length ss))"

definition sentenceNotes :: "nat \<Rightarrow> int \<Rightarrow> int \<Rightarrow> int \<Rightarrow> string" where
  "sentenceNotes n cSize ov mx =
     ''Text was split into '' @ show_nat n @ '' sentences'' @
     (if ov > 0 then '' with '' @ show_int ov @ '' sentences of overlap between chunks'' else []) @
     '', then grouped into chunks of about '' @ show_int cSize @ '' sentences each'' @
     (if mx > 0 then '', limited to '' @ show_int mx @ '' chunks maximum'' else []) @ ''.''"

definition sentenceBasedChunking :: "string \<Rightarrow> ChunkingOptions \<Rightarrow> ChunkingResult option" where
  "sentenceBasedChunking text options =
     (let cSize = orDefault 5 (chunkSize options); ov = orDefault 0 (overlap options);
          mx = orDefault 0 (maxChunks options)
      in case sentenceLoop (sentencesToProcess (allSentences text) cSize mx) cSize (fixedStep cSize ov) 0 [] of
           None \<Rightarrow> None
         | Some cs \<Rightarrow> Some (mkResult cs (sentenceNotes (length (allSentences text)) cSize ov mx)))"

section \<open>Paragraph-based chunking\<close>

text \<open>The alternatives of the paragraph separator: \<^verbatim>\<open>\r\n\s*\r\n\<close>,
  \<^verbatim>\<open>\n\s*[-_*]{3,}\s*\n\<close> and \<^verbatim>\<open>\n\s*#{1,6}\s+\<close>, after \<^verbatim>\<open>\n\s*\n\<close>.\<close>

definition rx_windowsBlank :: matcher where
  "rx_windowsBlank bef s =
     (if prefix [CHR 0x0D, CHR 0x0A] s then
        (case filter (\<lambda>k. takeWhile is_space (drop 2 s) ! k = CHR 0x0D \<and>
                          Suc k < length (takeWhile is_space (drop 2 s)) \<and>
                          takeWhile is_space (drop 2 s) ! Suc k = CHR 0x0A)
                (rev [0..<length (takeWhile is_space (drop 2 s))]) of
           [] \<Rightarrow> None
         | k # ks \<Rightarrow> Some (k + 4))
      else None)"

definition is_rule_char :: "char \<Rightarrow> bool" where
  "is_rule_char c = (c \<in> set ''-_*'')"

definition rx_rule :: matcher where
  "rx_rule bef s =
     (case s of
        [] \<Rightarrow> None
      | c # cs \<Rightarrow>
          if c = CHR 0x0A \<and> length (takeWhile is_rule_char (dropWhile is_space cs)) \<ge> 3 then
            (case lastNewline (takeWhile is_space (dropWhile is_rule_char (dropWhile is_space cs))) of
               None \<Rightarrow> None
             | Some k \<Rightarrow>
                 Some (1 + length (takeWhile is_space cs) +
                       length (takeWhile is_rule_char (dropWhile is_space cs)) + k + 1))
          else None)"

definition is_hash :: "char \<Rightarrow> bool" where
  "is_hash c = (c = CHR ''#'')"

definition rx_header :: matcher where
  "rx_header bef s =
     (case s of
        [] \<Rightarrow> None
      | c # cs \<Rightarrow>
          if c = CHR 0x0A \<and> 1 \<le> length (takeWhile is_hash (dropWhile is_space cs)) \<and>
             length (takeWhile is_hash (dropWhile is_space cs)) \<le> 6 \<and>
             takeWhile is_space (dropWhile is_hash (dropWhile is_space cs)) \<noteq> []
          then Some (1 + length (takeWhile is_space cs) +
                     length (takeWhile is_hash (dropWhile is_space cs)) +
                     length (takeWhile is_space (dropWhile is_hash (dropWhile is_space cs))))
          else None)"

definition rx_alt :: "matcher \<Rightarrow> matcher \<Rightarrow> matcher" where
  "rx_alt a b bef s = (case a bef s of Some n \<Rightarrow> Some n | None \<Rightarrow> b bef s)"

definition combinedSeparator :: matcher where
  "combinedSeparator = rx_alt rx_blankline (rx_alt rx_windowsBlank (rx_alt rx_rule rx_header))"

definition paragraphsOf :: "string \<Rightarrow> string list" where
  "paragraphsOf text =
     (case filter (\<lambda>p. p \<noteq> []) (map trim (rx_split combinedSeparator text)) of
        [] \<Rightarrow> [text]
      | p # ps \<Rightarrow> p # ps)"

definition paragraphsPerChunk :: "ChunkingOptions \<Rightarrow> int" where
  "paragraphsPerChunk options =
     (if orDefault 0 (chunkSize options) > 0 then orDefault 0 (chunkSize options) else 3)"

definition adjustedParagraphsPerChunk :: "nat \<Rightarrow> ChunkingOptions \<Rightarrow> int" where
  "adjustedParagraphsPerChunk n options =
     (if orDefault 0 (maxChunks options) > 0 \<and>
         int n > orDefault 0 (maxChunks options) * paragraphsPerChunk options
      then ceil_div (int n) (orDefault 0 (maxChunks options))
      else paragraphsPerChunk options)"

definition paragraphStep :: "nat \<Rightarrow> ChunkingOptions \<Rightarrow> int" where
  "paragraphStep n options =
     (if orDefault 0 (overlap options) > 0
      then max 1 (adjustedParagraphsPerChunk n options - orDefault 0 (overlap options))
      else adjustedParagraphsPerChunk n options)"

text \<open>The loop of \<open>paragraphBasedChunking\<close>. Its step is at least one, because the
  number of paragraphs per chunk is, so the loop is total.\<close>

definition paragraphWindow :: "string list \<Rightarrow> ChunkingOptions \<Rightarrow> int \<Rightarrow> string list" where
  "paragraphWindow ps options i =
     js_slice ps i (i + adjustedParagraphsPerChunk (length ps) options)"

function paragraphLoop :: "string list \<Rightarrow> ChunkingOptions \<Rightarrow> int \<Rightarrow> Chunk list \<Rightarrow> Chunk list" where
  "paragraphLoop ps options i cs =
     (if i < int (length ps) then
        (if (length (paragraphWindow ps options i) < 1 \<or>
             3 * int (length (paragraphWindow ps options i)) < adjustedParagraphsPerChunk (length ps) options)
            \<and> cs \<noteq> [] then cs
         else if orDefault 0 (maxChunks options) > 0 \<and> int (length cs) + 1 \<ge> orDefault 0 (maxChunks options)
           then cs @ [textChunk (length cs) (js_join [CHR 0x0A, CHR 0x0A] (paragraphWindow ps options i))]
         else paragraphLoop ps options (i + paragraphStep (length ps) options)
                (cs @ [textChunk (length cs) (js_join [CHR 0x0A, CHR 0x0A] (paragraphWindow ps options i))]))
      else cs)"
  by pat_completeness auto
termination
proof (relation "measure (\<lambda>(ps, options, i, cs). nat (int (length ps) - i))")
  show "wf (measure (\<lambda>(ps, options, i, cs). nat (int (length ps) - i)))"
    by simp
next
  fix ps :: "string list" and options :: ChunkingOptions and i :: int and cs :: "Chunk list"
  assume less: "i < int (length ps)"
  have ppc: "1 \<le> paragraphsPerChunk options"
    by (simp add: paragraphsPerChunk_def)
  have adj: "1 \<le> adjustedParagraphsPerChunk (length ps) options"
  proof (cases "orDefault 0 (maxChunks options) > 0 \<and>
      int (length ps) > orDefault 0 (maxChunks options) * paragraphsPerChunk options")
    case False
    then have "adjustedParagraphsPerChunk (length ps) options = paragraphsPerChunk options"
      unfolding adjustedParagraphsPerChunk_def by (rule if_not_P)
    with ppc show ?thesis by simp
  next
    case True
    then have mx: "0 < orDefault 0 (maxChunks options)" by simp
    have "0 \<le> orDefault 0 (maxChunks options) * paragraphsPerChunk options"
      using mx ppc by simp
    with True have "0 < int (length ps)" by linarith
    with mx have "(- int (length ps)) div orDefault 0 (maxChunks options) < 0"
      by (simp add: div_neg_pos_less0)
    then have "1 \<le> ceil_div (int (length ps)) (orDefault 0 (maxChunks options))"
      by (simp add: ceil_div_def)
    moreover have "adjustedParagraphsPerChunk (length ps) options =
        ceil_div (int (length ps)) (orDefault 0 (maxChunks options))"
      unfolding adjustedParagraphsPerChunk_def using True by (rule if_P)
    ultimately show ?thesis by simp
  qed
  then have "1 \<le> paragraphStep (length ps) options"
    by (simp add: paragraphStep_def)
  with less show
    "((ps, options, i + paragraphStep (length ps) options,
       cs @ [textChunk (length cs) (js_join [CHR 0x0A, CHR 0x0A] (paragraphWindow ps options i))]),
      (ps, options, i, cs)) \<in> measure (\<lambda>(ps, options, i, cs). nat (int (length ps) - i))"
    by simp
qed

declare paragraphLoop.simps [simp del]

definition paragraphNotes :: "nat \<Rightarrow> nat \<Rightarrow> ChunkingOptions \<Rightarrow> string" where
  "paragraphNotes n k options =
     ''Text was split into '' @ show_nat n @ '' paragraphs'' @
     (if orDefault 0 (overlap options) > 0
      then '', with '' @ show_int (orDefault 0 (overlap options)) @ '' paragraphs of overlap between chunks''
      else []) @
     (if orDefault 0 (maxChunks options) > 0 \<and> int k = orDefault 0 (maxChunks options)
      then '', limited to '' @ show_int (orDefault 0 (maxChunks options)) @ '' chunks maximum''
      else []) @
     '', resulting in '' @ show_nat k @ '' chunks with approximately '' @
     show_int (adjustedParagraphsPerChunk n options) @ '' paragraphs per chunk.''"

definition paragraphBasedChunking :: "string \<Rightarrow> ChunkingOptions \<Rightarrow> ChunkingResult" where
  "paragraphBasedChunking text options =
     mkResult (paragraphLoop (paragraphsOf text) options 0 [])
       (paragraphNotes (length (paragraphsOf text))
          (length (paragraphLoop (paragraphsOf text) options 0 [])) options)"

section \<open>Heuristic structural chunking\<close>

text \<open>The line tests \<^verbatim>\<open>/^#{1,6}\s+/\<close>, \<^verbatim>\<open>/^[-_*]{3,}\s*$/\<close> and
  \<^verbatim>\<open>/^\s*1\.\s+/\<close>; a line holds no line feed.\<close>

definition isHeaderLine :: "string \<Rightarrow> bool" where
  "isHeaderLine line =
     (1 \<le> length (takeWhile is_hash line) \<and> length (takeWhile is_hash line) \<le> 6 \<and>
      (case dropWhile is_hash line of [] \<Rightarrow> False | c # cs \<Rightarrow> is_space c))"

definition isRuleLine :: "string \<Rightarrow> bool" where
  "isRuleLine line =
     (length (takeWhile is_rule_char line) \<ge> 3 \<and> list_all is_space (dropWhile is_rule_char line))"

definition isNumberedLine :: "string \<Rightarrow> bool" where
  "isNumberedLine line =
     (case dropWhile is_space line of
        c1 # c2 # c3 # cs \<Rightarrow> c1 = CHR ''1'' \<and> c2 = CHR ''.'' \<and> is_space c3
      | _ \<Rightarrow> False)"

definition isBoundaryLine :: "string list \<Rightarrow> nat \<Rightarrow> bool" where
  "isBoundaryLine lines index =
     (isHeaderLine (lines ! index) \<or> isRuleLine (lines ! index) \<or> isNumberedLine (lines ! index) \<or>
      (trim (lines ! index) = [] \<and> index > 0 \<and> Suc index < length lines \<and>
       trim (lines ! (index - 1)) \<noteq> [] \<and> trim (lines ! Suc index) \<noteq> []))"

definition semanticBoundaries :: "string list \<Rightarrow> nat list" where
  "semanticBoundaries lines = 0 # filter (isBoundaryLine lines) [0..<length lines] @ [length lines]"

text \<open>The chunks between consecutive boundaries that are at least two lines apart.\<close>

definition rawChunkTexts :: "string list \<Rightarrow> string list" where
  "rawChunkTexts lines =
     map (\<lambda>(startLine, endLine). js_join [CHR 0x0A] (js_slice lines (int startLine) (int endLine)))
       (filter (\<lambda>(startLine, endLine). \<not> int endLine - int startLine < 2)
          (zip (semanticBoundaries lines) (tl (semanticBoundaries lines))))"

definition numbered :: "string list \<Rightarrow> Chunk list" where
  "numbered ts = map (\<lambda>(i, t). textChunk i t) (enumerate 0 ts)"

text \<open>The merge loops of the heuristic and the hybrid strategy: \<open>cur\<close> is
  \<open>currentChunk\<close> (\<open>None\<close> for \<open>null\<close>), \<open>joins cur c\<close> decides whether \<open>c\<close> is merged
  into it, and \<open>sep\<close> is put between the two texts and counted in the characters.\<close>

definition absorb :: "string \<Rightarrow> Chunk \<Rightarrow> Chunk \<Rightarrow> Chunk" where
  "absorb sep cur c =
     cur\<lparr>chunk_text := chunk_text cur @ sep @ chunk_text c,
         chunk_tokens := chunk_tokens cur + chunk_tokens c,
         chunk_characters := chunk_characters cur + chunk_characters c + length sep\<rparr>"

fun mergeWith ::
  "(Chunk \<Rightarrow> Chunk \<Rightarrow> bool) \<Rightarrow> string \<Rightarrow> Chunk list \<Rightarrow> Chunk option \<Rightarrow> Chunk list \<Rightarrow> Chunk list" where
  "mergeWith joins sep acc None [] = acc"
| "mergeWith joins sep acc (Some cur) [] = acc @ [cur]"
| "mergeWith joins sep acc None (c # cs) = mergeWith joins sep acc (Some c) cs"
| "mergeWith joins sep acc (Some cur) (c # cs) =
     (if joins cur c then mergeWith joins sep acc (Some (absorb sep cur c)) cs
      else mergeWith joins sep (acc @ [cur]) (Some c) cs)"

definition renumber :: "Chunk list \<Rightarrow> Chunk list" where
  "renumber cs = map (\<lambda>(i, c). c\<lparr>chunk_id := i\<rparr>) (enumerate 0 cs)"

definition limitChunks :: "int \<Rightarrow> 'a list \<Rightarrow> 'a list" where
  "limitChunks mx cs = (if mx > 0 \<and> int (length cs) > mx then js_slice cs 0 mx else cs)"

definition heuristicNotes :: "nat \<Rightarrow> nat \<Rightarrow> string" where
  "heuristicNotes b n =
     ''Semantic-like chunking identified '' @ show_nat b @
     '' potential section boundaries and created '' @ show_nat n @
     '' chunks based on document structure and content.''"

definition blankParagraphs :: "string \<Rightarrow> string list" where
  "blankParagraphs text = filter (\<lambda>p. p \<noteq> []) (rx_split rx_blankline text)"

definition textLines :: "string \<Rightarrow> string list" where
  "textLines text = rx_split (rx_literal [CHR 0x0A]) text"

definition heuristicSemanticChunking :: "string \<Rightarrow> ChunkingOptions \<Rightarrow> ChunkingResult" where
  "heuristicSemanticChunking text options =
     (if length (blankParagraphs text) \<le> 1 then paragraphBasedChunking text options
      else if rawChunkTexts (textLines text) = [] then paragraphBasedChunking text options
      else
        (let finalChunks = renumber (limitChunks (orDefault 0 (maxChunks options))
                             (mergeWith (\<lambda>cur c. chunk_tokens c < 20) [CHR 0x0A] [] None
                                (numbered (rawChunkTexts (textLines text)))))
         in mkResult finalChunks
              (heuristicNotes (length (semanticBoundaries (textLines text)) - 1) (length finalChunks))))"

section \<open>Semantic chunking\<close>

text \<open>
  Numbers that are not counts are real numbers here: the development idealises the
  floating-point arithmetic of the source. The embedding provider stands outside the program
  and is a parameter: for an API key and a text it yields a vector, or \<open>None\<close> when the
  request fails or the payload is malformed.
\<close>

datatype error = VectorsMustHaveTheSameLength | RangeError

definition bindE :: "error + 'a \<Rightarrow> ('a \<Rightarrow> error + 'b) \<Rightarrow> error + 'b" where
  "bindE x f = (case x of Inl e \<Rightarrow> Inl e | Inr v \<Rightarrow> f v)"

fun mapE :: "('a \<Rightarrow> error + 'b) \<Rightarrow> 'a list \<Rightarrow> error + 'b list" where
  "mapE f [] = Inr []"
| "mapE f (x # xs) = bindE (f x) (\<lambda>y. bindE (mapE f xs) (\<lambda>ys. Inr (y # ys)))"

type_synonym provider = "string \<Rightarrow> string \<Rightarrow> real list option"

text \<open>\<open>getOpenAIEmbeddings\<close> catches every failure and answers with a zero vector.\<close>

definition getOpenAIEmbeddings :: "provider \<Rightarrow> string \<Rightarrow> string \<Rightarrow> real list" where
  "getOpenAIEmbeddings p text key = (case p key text of Some v \<Rightarrow> v | None \<Rightarrow> replicate 1536 0)"

definition dot :: "real list \<Rightarrow> real list \<Rightarrow> real" where
  "dot xs ys = sum_list (map (\<lambda>(a, b). a * b) (zip xs ys))"

definition cosineSimilarity :: "real list \<Rightarrow> real list \<Rightarrow> error + real" where
  "cosineSimilarity vecA vecB =
     (if length vecA \<noteq> length vecB then Inl VectorsMustHaveTheSameLength
      else if dot vecA vecA = 0 \<or> dot vecB vecB = 0 then Inr 0
      else Inr (dot vecA vecB / (sqrt (dot vecA vecA) * sqrt (dot vecB vecB))))"

definition similarityMatrix :: "real list list \<Rightarrow> error + real list list" where
  "similarityMatrix embeddings = mapE (\<lambda>a. mapE (\<lambda>b. cosineSimilarity a b) embeddings) embeddings"

definition targetClusters :: "nat \<Rightarrow> int \<Rightarrow> real" where
  "targetClusters n mx = (if mx > 0 then min (real_of_int mx) (real n / 3) else real n / 3)"

definition avgSimilarity :: "real list list \<Rightarrow> nat list \<Rightarrow> nat list \<Rightarrow> real" where
  "avgSimilarity sim c1 c2 =
     sum_list (map (\<lambda>idx1. sum_list (map (\<lambda>idx2. sim ! idx1 ! idx2) c2)) c1) / real (length c1 * length c2)"

text \<open>The search for the most similar pair of adjacent clusters: the state is
  \<open>maxSimilarity\<close> and the left index of \<open>mergeClusters\<close>.\<close>

definition mergeStep :: "real list list \<Rightarrow> nat list list \<Rightarrow> nat \<Rightarrow> real \<times> nat option \<Rightarrow> real \<times> nat option" where
  "mergeStep sim clusters i st =
     (if avgSimilarity sim (clusters ! i) (clusters ! Suc i) > fst st
      then (avgSimilarity sim (clusters ! i) (clusters ! Suc i), Some i) else st)"

definition findMerge :: "real list list \<Rightarrow> nat list list \<Rightarrow> nat option" where
  "findMerge sim clusters = snd (fold (mergeStep sim clusters) [0..<length clusters - 1] (- 1, None))"

lemma fold_mergeStep_index:
  "snd (fold (mergeStep sim clusters) js st) = Some i \<Longrightarrow> i \<in> set js \<or> snd st = Some i"
  by (induction js arbitrary: st) (fastforce simp: mergeStep_def split: if_splits)+

lemma findMerge_bound:
  assumes "findMerge sim clusters = Some i"
  shows "Suc i < length clusters"
  using fold_mergeStep_index [of sim clusters "[0..<length clusters - 1]" "(- 1, None)" i] assms
  by (auto simp: findMerge_def)

definition mergeAt :: "nat \<Rightarrow> nat list list \<Rightarrow> nat list list" where
  "mergeAt i clusters = take i clusters @ [clusters ! i @ clusters ! Suc i] @ drop (i + 2) clusters"

function clusterLoop :: "real list list \<Rightarrow> real \<Rightarrow> nat list list \<Rightarrow> nat list list" where
  "clusterLoop sim target clusters =
     (if real (length clusters) > target then
        (case findMerge sim clusters of
           Some i \<Rightarrow> clusterLoop sim target (mergeAt i clusters)
         | None \<Rightarrow> clusters)
      else clusters)"
  by pat_completeness auto
termination
proof (relation "measure (\<lambda>(sim, target, clusters). length clusters)")
  show "wf (measure (\<lambda>(sim, target, clusters). length clusters))"
    by simp
next
  fix sim :: "real list list" and target :: real and clusters :: "nat list list" and i :: nat
  assume "findMerge sim clusters = Some i"
  then have "Suc i < length clusters"
    by (rule findMerge_bound)
  then show "((sim, target, mergeAt i clusters), (sim, target, clusters))
      \<in> measure (\<lambda>(sim, target, clusters). length clusters)"
    by (simp add: mergeAt_def)
qed

declare clusterLoop.simps [simp del]

record RawChunk =
  raw_text :: string
  paragraphIndices :: "nat list"
  embedding :: "real list"

text \<open>The representative embedding of a cluster: the mean of its members weighted by their
  lengths, over the dimension of the first embedding.\<close>

definition clusterEmbedding :: "string list \<Rightarrow> real list list \<Rightarrow> nat list \<Rightarrow> real list" where
  "clusterEmbedding paragraphs embeddings cluster =
     map (\<lambda>j. sum_list (map (\<lambda>idx. embeddings ! idx ! j *
                 (real (length (paragraphs ! idx)) /
                  real (sum_list (map (\<lambda>k. length (paragraphs ! k)) cluster)))) cluster))
       [0..<length (embeddings ! 0)]"

definition rawChunkOf :: "string list \<Rightarrow> real list list \<Rightarrow> nat list \<Rightarrow> RawChunk" where
  "rawChunkOf paragraphs embeddings cluster =
     \<lparr>raw_text = js_join [CHR 0x0A, CHR 0x0A] (map (\<lambda>idx. paragraphs ! idx) cluster),
      paragraphIndices = cluster,
      embedding = clusterEmbedding paragraphs embeddings cluster\<rparr>"

definition minIndex :: "nat list \<Rightarrow> nat" where
  "minIndex xs = fold min (tl xs) (hd xs)"

definition rawChunksOf :: "string list \<Rightarrow> real list list \<Rightarrow> nat list list \<Rightarrow> RawChunk list" where
  "rawChunksOf paragraphs embeddings clusters =
     sort_key (\<lambda>c. minIndex (paragraphIndices c))
       (map (\<lambda>cluster. rawChunkOf paragraphs embeddings (sort cluster)) clusters)"

text \<open>\<open>Math.round\<close> of a real number, and the number of paragraphs to borrow.\<close>

definition js_round :: "real \<Rightarrow> int" where
  "js_round x = \<lfloor>x + 1 / 2\<rfloor>"

definition paragraphsToInclude :: "real \<Rightarrow> int \<Rightarrow> nat \<Rightarrow> int" where
  "paragraphsToInclude similarity ov n = max 1 (js_round (similarity * (real_of_int ov / 100) * real n))"

text \<open>What chunk \<open>i\<close> borrows from another chunk: nothing unless their similarity exceeds
  \<open>0.6\<close>, else the other chunk's paragraphs that are most similar to chunk \<open>i\<close>.\<close>

definition borrowed ::
  "string list \<Rightarrow> real list list \<Rightarrow> int \<Rightarrow> real list \<Rightarrow> RawChunk \<Rightarrow> error + string option" where
  "borrowed paragraphs embeddings ov chunkEmbedding otherChunk =
     bindE (cosineSimilarity chunkEmbedding (embedding otherChunk)) (\<lambda>similarity.
       if similarity > 6 / 10 then
         bindE (mapE (\<lambda>idx. bindE (cosineSimilarity chunkEmbedding (embeddings ! idx))
                               (\<lambda>s. Inr (s, paragraphs ! idx)))
                  (paragraphIndices otherChunk)) (\<lambda>scored.
           Inr (Some (js_join [CHR 0x0A, CHR 0x0A]
                  (map snd (js_slice (sort_key (\<lambda>p. - fst p) scored) 0
                              (paragraphsToInclude similarity ov (length scored)))))))
       else Inr None)"

fun overlapText ::
  "string list \<Rightarrow> real list list \<Rightarrow> int \<Rightarrow> RawChunk list \<Rightarrow> nat \<Rightarrow> string \<Rightarrow> nat list \<Rightarrow> error + string" where
  "overlapText paragraphs embeddings ov raws i chunkText [] = Inr chunkText"
| "overlapText paragraphs embeddings ov raws i chunkText (j # js) =
     (if i = j then overlapText paragraphs embeddings ov raws i chunkText js
      else bindE (borrowed paragraphs embeddings ov (embedding (raws ! i)) (raws ! j)) (\<lambda>b.
             case b of
               None \<Rightarrow> overlapText paragraphs embeddings ov raws i chunkText js
             | Some selected \<Rightarrow>
                 overlapText paragraphs embeddings ov raws i
                   (if j < i then selected @ [CHR 0x0A, CHR 0x0A] @ chunkText
                    else chunkText @ [CHR 0x0A, CHR 0x0A] @ selected) js))"

definition finalTexts :: "string list \<Rightarrow> real list list \<Rightarrow> int \<Rightarrow> RawChunk list \<Rightarrow> error + string list" where
  "finalTexts paragraphs embeddings ov raws =
     (if ov > 0 \<and> length raws > 1 then
        mapE (\<lambda>i. overlapText paragraphs embeddings ov raws i (raw_text (raws ! i)) [0..<length raws])
          [0..<length raws]
      else Inr (map raw_text raws))"

definition semanticNotes :: "nat \<Rightarrow> int \<Rightarrow> string" where
  "semanticNotes n ov =
     ''Advanced semantic chunking with OpenAI embeddings identified '' @ show_nat n @
     '' thematic sections using agglomerative clustering'' @
     (if ov > 0 then '' with intelligent semantic-based overlap between related chunks'' else [])"

text \<open>The body of the \<open>try\<close> block of \<open>semanticChunking\<close>; \<open>Inl\<close> is a thrown exception.
  The boundary list that the source computes from the local minima of the similarities is
  used nowhere afterwards and is left out. The clusters are never empty, so the division by
  the number of chunks in the averages is a division by a positive number.\<close>

definition semanticTry :: "provider \<Rightarrow> string \<Rightarrow> string \<Rightarrow> ChunkingOptions \<Rightarrow> error + ChunkingResult" where
  "semanticTry p key text options =
     (if length (blankParagraphs text) \<le> 1 then Inr (paragraphBasedChunking text options)
      else
        (let paragraphs = blankParagraphs text;
             embeddings = map (\<lambda>paragraph. getOpenAIEmbeddings p paragraph key) paragraphs
         in bindE (similarityMatrix embeddings) (\<lambda>sim.
              bindE (finalTexts paragraphs embeddings (orDefault 0 (overlap options))
                       (rawChunksOf paragraphs embeddings
                          (clusterLoop sim
                             (targetClusters (length paragraphs) (orDefault 0 (maxChunks options)))
                             (map (\<lambda>i. [i]) [0..<length paragraphs])))) (\<lambda>ts.
                Inr (mkResult (numbered ts)
                       (semanticNotes (length ts) (orDefault 0 (overlap options))))))))"

text \<open>An API key counts when it is present and not the empty string.\<close>

definition semanticChunking :: "provider \<Rightarrow> string \<Rightarrow> ChunkingOptions \<Rightarrow> ChunkingResult" where
  "semanticChunking p text options =
     (case apiKey options of
        None \<Rightarrow> heuristicSemanticChunking text options
      | Some key \<Rightarrow>
          if key = [] then heuristicSemanticChunking text options
          else (case semanticTry p key text options of
                  Inr r \<Rightarrow> r
                | Inl e \<Rightarrow> heuristicSemanticChunking text options))"

section \<open>The retrieval ranker\<close>

text \<open>The similarity of \<open>findSimilarChunks\<close> divides without a check; the quotient of the
  source is a floating-point number, which may be no number at all.\<close>

datatype jsnumber = Finite real | PlusInfinity | MinusInfinity | NaN

definition js_divide :: "real \<Rightarrow> real \<Rightarrow> jsnumber" where
  "js_divide a b =
     (if b \<noteq> 0 then Finite (a / b)
      else if a = 0 then NaN
      else if a > 0 then PlusInfinity else MinusInfinity)"

text \<open>\<open>calculateCosineSimilarity\<close>: reading \<open>vecB[i]\<close> beyond the end of \<open>vecB\<close> gives
  \<open>undefined\<close> and turns the sum into \<open>NaN\<close>.\<close>

definition calculateCosineSimilarity :: "real list \<Rightarrow> real list \<Rightarrow> jsnumber" where
  "calculateCosineSimilarity vecA vecB =
     (if length vecB < length vecA then NaN
      else js_divide (dot vecA vecB) (sqrt (dot vecA vecA) * sqrt (dot vecB vecB)))"

record EmbeddedChunk = Chunk +
  chunk_embedding :: "real list option"

record QueryResult =
  chunkId :: nat
  result_text :: string
  score :: jsnumber

text \<open>The scored chunks of \<open>findSimilarChunks\<close>, before they are sorted and cut to the
  best \<open>topK\<close>.\<close>

definition similarities :: "real list \<Rightarrow> EmbeddedChunk list \<Rightarrow> QueryResult list" where
  "similarities queryEmbedding cs =
     map (\<lambda>c. \<lparr>chunkId = chunk_id c, result_text = chunk_text c,
                score = calculateCosineSimilarity queryEmbedding (the (chunk_embedding c))\<rparr>)
       (filter (\<lambda>c. chunk_embedding c \<noteq> None) cs)"

text \<open>The sort by descending score, \<open>similarities.sort((a, b) => b.score - a.score)\<close>. The
  language fixes the result of \<open>Array.prototype.sort\<close> only for a consistent comparator, for
  which it is the stable sort. The difference of two scores is such a comparator when every
  score is a finite number; once a score is \<open>NaN\<close> or infinite, a difference is \<open>NaN\<close> and the
  order of the results is left to the engine, for which the model returns \<open>None\<close>. A list of
  fewer than two results has one order only, and sorting it compares nothing.\<close>

definition isFiniteScore :: "QueryResult \<Rightarrow> bool" where
  "isFiniteScore r = (case score r of Finite x \<Rightarrow> True | _ \<Rightarrow> False)"

definition scoreValue :: "QueryResult \<Rightarrow> real" where
  "scoreValue r = (case score r of Finite x \<Rightarrow> x | _ \<Rightarrow> 0)"

definition sortByScore :: "QueryResult list \<Rightarrow> QueryResult list option" where
  "sortByScore rs =
     (if length rs \<le> 1 then Some rs
      else if list_all isFiniteScore rs then Some (sort_key (\<lambda>r. - scoreValue r) rs)
      else None)"

definition findSimilarChunks ::
  "real list \<Rightarrow> EmbeddedChunk list \<Rightarrow> nat \<Rightarrow> QueryResult list option" where
  "findSimilarChunks queryEmbedding cs topK =
     map_option (take topK) (sortByScore (similarities queryEmbedding cs))"

section \<open>Hybrid chunking\<close>

text \<open>What becomes of one paragraph chunk: kept, split by sentences, or split by a sliding
  window. \<open>options.chunkSize || 100\<close> and \<open>options.overlap || 0\<close> take the default for an
  absent field and for \<open>0\<close>.\<close>

definition orIfFalsy :: "int \<Rightarrow> int option \<Rightarrow> int" where
  "orIfFalsy d x = (case x of None \<Rightarrow> d | Some v \<Rightarrow> if v = 0 then d else v)"

definition hybridSplit :: "int \<Rightarrow> int \<Rightarrow> Chunk \<Rightarrow> Chunk list option" where
  "hybridSplit maxTokensPerChunk ov paragraph =
     (if int (chunk_tokens paragraph) \<le> maxTokensPerChunk then Some [paragraph]
      else if int (chunk_tokens paragraph) \<le> maxTokensPerChunk * 2 then
        map_option chunks
          (sentenceBasedChunking (chunk_text paragraph)
             (noOptions\<lparr>chunkSize := Some (ceil_div maxTokensPerChunk 10),
                         overlap := Some (ceil_div ov 10)\<rparr>))
      else
        Some (chunks (slidingWindowChunking (chunk_text paragraph)
                 (noOptions\<lparr>chunkSize := Some maxTokensPerChunk, overlap := Some ov\<rparr>))))"

fun hybridParts :: "int \<Rightarrow> int \<Rightarrow> Chunk list \<Rightarrow> Chunk list option" where
  "hybridParts maxTokensPerChunk ov [] = Some []"
| "hybridParts maxTokensPerChunk ov (paragraph # ps) =
     (case hybridSplit maxTokensPerChunk ov paragraph of
        None \<Rightarrow> None
      | Some cs \<Rightarrow>
          (case hybridParts maxTokensPerChunk ov ps of
             None \<Rightarrow> None
           | Some rest \<Rightarrow> Some (cs @ rest)))"

definition hybridMerge :: "int \<Rightarrow> Chunk list \<Rightarrow> Chunk list" where
  "hybridMerge maxTokensPerChunk cs =
     (if length cs > 1 then
        renumber (mergeWith (\<lambda>cur c. int (chunk_tokens cur) + int (chunk_tokens c) \<le> maxTokensPerChunk)
                    [CHR 0x0A, CHR 0x0A] [] None cs)
      else cs)"

definition hybridNotes :: "nat \<Rightarrow> int \<Rightarrow> int \<Rightarrow> string" where
  "hybridNotes n maxTokensPerChunk ov =
     ''Hybrid chunking created '' @ show_nat n @
     '' chunks using a combination of paragraph-based, sentence-based, and sliding window approaches. Target chunk size was '' @
     show_int maxTokensPerChunk @ '' tokens'' @
     (if ov > 0 then '' with '' @ show_int ov @ '' tokens of overlap where needed'' else []) @ ''.''"

definition hybridChunking :: "string \<Rightarrow> ChunkingOptions \<Rightarrow> ChunkingResult option" where
  "hybridChunking text options =
     (case hybridParts (orIfFalsy 100 (chunkSize options)) (orIfFalsy 0 (overlap options))
             (chunks (paragraphBasedChunking text noOptions)) of
        None \<Rightarrow> None
      | Some parts \<Rightarrow>
          Some (mkResult (hybridMerge (orIfFalsy 100 (chunkSize options)) (renumber parts))
                  (hybridNotes (length (hybridMerge (orIfFalsy 100 (chunkSize options)) (renumber parts)))
                     (orIfFalsy 100 (chunkSize options)) (orIfFalsy 0 (overlap options)))))"

section \<open>Recursive text splitter\<close>

text \<open>\<open>String.prototype.split\<close> with a string: the empty separator splits into single
  characters.\<close>

definition js_split :: "string \<Rightarrow> string \<Rightarrow> string list" where
  "js_split sep s = (if sep = [] then map (\<lambda>c. [c]) s else rx_split (rx_literal sep) s)"

definition sizeOf :: "ChunkingMode \<Rightarrow> string \<Rightarrow> int" where
  "sizeOf mode s = (case mode of Characters \<Rightarrow> int (length s) | Tokens \<Rightarrow> int (countTokens s))"

definition concatE :: "(error + 'a list) list \<Rightarrow> error + 'a list" where
  "concatE rs = bindE (mapE (\<lambda>r. r) rs) (\<lambda>xss. Inr (concat xss))"

text \<open>
  \<open>recursiveSplit\<close>. The engine bounds the number of arguments of a call, and
  \<open>results.push(...subSegments)\<close> passes one argument for each sub-segment: beyond the bound
  \<open>argLimit\<close> it throws a \<open>RangeError\<close>. This is the way in which the \<open>try\<close> block of the
  splitter fails, so the bound is a parameter here; the other strategies are modelled
  within the limits of the engine.
\<close>

fun recursiveSplit :: "nat \<Rightarrow> ChunkingMode \<Rightarrow> int \<Rightarrow> string list \<Rightarrow> string \<Rightarrow> error + string list" where
  "recursiveSplit argLimit mode cSize [] text = Inr [text]"
| "recursiveSplit argLimit mode cSize (sep # nextSeparators) text =
     (if sizeOf mode text \<le> cSize then Inr [text]
      else if length (filter (\<lambda>s. trim s \<noteq> []) (js_split sep text)) > 1 \<and>
              list_all (\<lambda>segment. sizeOf mode segment \<le> cSize)
                (filter (\<lambda>s. trim s \<noteq> []) (js_split sep text))
        then Inr (filter (\<lambda>s. trim s \<noteq> []) (js_split sep text))
      else if length (filter (\<lambda>s. trim s \<noteq> []) (js_split sep text)) \<le> 1 \<or>
              \<not> list_all (\<lambda>segment. sizeOf mode segment \<le> cSize)
                  (filter (\<lambda>s. trim s \<noteq> []) (js_split sep text))
        then concatE
               (map (\<lambda>segment.
                       if sizeOf mode segment \<le> cSize then Inr [segment]
                       else (case recursiveSplit argLimit mode cSize nextSeparators segment of
                               Inl e \<Rightarrow> Inl e
                             | Inr subSegments \<Rightarrow>
                                 if length subSegments > argLimit then Inl RangeError
                                 else Inr subSegments))
                  (filter (\<lambda>s. trim s \<noteq> []) (js_split sep text)))
      else Inr (filter (\<lambda>s. trim s \<noteq> []) (js_split sep text)))"

definition periodJoin :: "string \<Rightarrow> string \<Rightarrow> string" where
  "periodJoin a b = a @ (if a \<noteq> [] \<and> last a = CHR ''.'' then '' '' else ''. '') @ b"

text \<open>\<open>mergeSmallChunks\<close>: the loop over the chunks after the first, with \<open>currentChunk\<close>
  and \<open>currentSize\<close>.\<close>

fun mergeSmallLoop :: "ChunkingMode \<Rightarrow> int \<Rightarrow> string list \<Rightarrow> string \<Rightarrow> int \<Rightarrow> string list \<Rightarrow> string list" where
  "mergeSmallLoop mode targetSize result currentChunk currentSize [] =
     (if currentChunk \<noteq> [] then result @ [currentChunk] else result)"
| "mergeSmallLoop mode targetSize result currentChunk currentSize (nextChunk # rest) =
     (if currentSize + sizeOf mode nextChunk \<le> targetSize
      then mergeSmallLoop mode targetSize result (periodJoin currentChunk nextChunk)
             (currentSize + sizeOf mode nextChunk) rest
      else mergeSmallLoop mode targetSize (result @ [currentChunk]) nextChunk (sizeOf mode nextChunk) rest)"

definition mergeSmallChunks :: "ChunkingMode \<Rightarrow> string list \<Rightarrow> int \<Rightarrow> string list" where
  "mergeSmallChunks mode cs targetSize =
     (case cs of
        [] \<Rightarrow> cs
      | [c] \<Rightarrow> cs
      | c # rest \<Rightarrow> mergeSmallLoop mode targetSize [] c (sizeOf mode c) rest)"

definition overlapOf :: "ChunkingMode \<Rightarrow> int \<Rightarrow> string \<Rightarrow> string" where
  "overlapOf mode overlapSize prevChunk =
     (case mode of
        Characters \<Rightarrow>
          if int (length prevChunk) > overlapSize
          then js_substring prevChunk (int (length prevChunk) - overlapSize) (int (length prevChunk))
          else prevChunk
      | Tokens \<Rightarrow>
          if int (length (tokenize prevChunk)) > overlapSize
          then js_join '' '' (js_slice (tokenize prevChunk) (- overlapSize) (int (length (tokenize prevChunk))))
          else prevChunk)"

definition applyOverlap :: "ChunkingMode \<Rightarrow> string list \<Rightarrow> int \<Rightarrow> string list" where
  "applyOverlap mode cs overlapSize =
     (if length cs \<le> 1 \<or> overlapSize \<le> 0 then cs
      else map (\<lambda>i. if i > 0 then periodJoin (overlapOf mode overlapSize (cs ! (i - 1))) (cs ! i) else cs ! i)
             [0..<length cs])"

definition modeName :: "ChunkingMode \<Rightarrow> string" where
  "modeName mode = (case mode of Characters \<Rightarrow> ''characters'' | Tokens \<Rightarrow> ''tokens'')"

definition recursiveNotes :: "nat \<Rightarrow> int \<Rightarrow> int \<Rightarrow> ChunkingMode \<Rightarrow> string" where
  "recursiveNotes n cSize ov mode =
     ''Text was recursively split into '' @ show_nat n @ '' chunks of approximately '' @
     show_int cSize @ '' '' @ modeName mode @ '' each'' @
     (if ov > 0 then '' with '' @ show_int ov @ '' '' @ modeName mode @ '' of overlap'' else []) @
     '', preserving natural text boundaries.''"

definition defaultSeparators :: "string list" where
  "defaultSeparators = [[CHR 0x0A, CHR 0x0A], [CHR 0x0A], ''. '', '', '', '' '', []]"

text \<open>The body of the \<open>try\<close> block of \<open>recursiveTextSplitter\<close>.\<close>

definition recursiveTry :: "nat \<Rightarrow> string \<Rightarrow> ChunkingOptions \<Rightarrow> error + ChunkingResult" where
  "recursiveTry argLimit text options =
     (let cSize = orDefault 500 (chunkSize options); ov = orDefault 50 (overlap options);
          mode = orDefault Characters (chunkingMode options)
      in bindE (recursiveSplit argLimit mode cSize (orDefault defaultSeparators (customSeparators options)) text)
           (\<lambda>split.
              let merged = mergeSmallChunks mode split cSize;
                  overlapped = (if ov > 0 then applyOverlap mode merged ov else merged);
                  textChunks = limitChunks (orDefault 0 (maxChunks options)) overlapped
              in Inr (mkResult (numbered textChunks) (recursiveNotes (length textChunks) cSize ov mode))))"

definition recursiveTextSplitter :: "nat \<Rightarrow> string \<Rightarrow> ChunkingOptions \<Rightarrow> ChunkingResult option" where
  "recursiveTextSplitter argLimit text options =
     (case recursiveTry argLimit text options of
        Inr r \<Rightarrow> Some r
      | Inl e \<Rightarrow> fixedLengthChunking text options)"

section \<open>Agentic chunking\<close>

text \<open>The content tests. \<open>hasCode\<close>: a fenced block, an inline span between two backticks,
  or one of ten keywords as a whole word. \<open>hasLists\<close>: a bullet at the start of a line or a
  numbered item. \<open>hasHeaders\<close>: hashes and a space at the start of a line.\<close>

definition indexOf :: "string \<Rightarrow> string \<Rightarrow> nat option" where
  "indexOf pat s = find (\<lambda>k. prefix pat (drop k s)) [0..<Suc (length s)]"

definition rx_fenced :: matcher where
  "rx_fenced bef s =
     (if prefix [CHR 0x60, CHR 0x60, CHR 0x60] s then
        (case indexOf [CHR 0x60, CHR 0x60, CHR 0x60] (drop 3 s) of None \<Rightarrow> None | Some k \<Rightarrow> Some (k + 6))
      else None)"

definition rx_inlineCode :: matcher where
  "rx_inlineCode bef s =
     (if prefix [CHR 0x60] s then
        (case indexOf [CHR 0x60] (drop 1 s) of None \<Rightarrow> None | Some k \<Rightarrow> Some (k + 2))
      else None)"

definition word_end :: "string \<Rightarrow> bool" where
  "word_end s = (case s of [] \<Rightarrow> True | c # cs \<Rightarrow> \<not> is_word_char c)"

definition codeKeywords :: "string list" where
  "codeKeywords = [''function'', ''class'', ''def'', ''var'', ''const'', ''let'', ''import'', ''from'',
     ''public'', ''private'']"

definition rx_keyword :: matcher where
  "rx_keyword bef s =
     (if word_start bef then
        (case find (\<lambda>kw. prefix kw s \<and> word_end (drop (length kw) s)) codeKeywords of
           None \<Rightarrow> None
         | Some kw \<Rightarrow> Some (length kw))
      else None)"

definition hasCode :: "string \<Rightarrow> bool" where
  "hasCode text = rx_test (rx_alt rx_fenced (rx_alt rx_inlineCode rx_keyword)) text"

definition line_start :: "string \<Rightarrow> bool" where
  "line_start bef = (case bef of [] \<Rightarrow> True | c # cs \<Rightarrow> c = CHR 0x0A \<or> c = CHR 0x0D)"

definition rx_bullet :: matcher where
  "rx_bullet bef s =
     (if line_start bef then
        (case dropWhile is_space s of
           [] \<Rightarrow> None
         | c # r \<Rightarrow>
             if c \<in> set ''-*+'' \<and> takeWhile is_space r \<noteq> []
             then Some (length (takeWhile is_space s) + 1 + length (takeWhile is_space r))
             else None)
      else None)"

definition rx_numberedItem :: matcher where
  "rx_numberedItem bef s =
     (if word_start bef \<and> takeWhile is_digit s \<noteq> [] then
        (case dropWhile is_digit s of
           [] \<Rightarrow> None
         | c # r \<Rightarrow>
             if c = CHR ''.'' \<and> takeWhile is_space r \<noteq> []
             then Some (length (takeWhile is_digit s) + 1 + length (takeWhile is_space r))
             else None)
      else None)"

definition hasLists :: "string \<Rightarrow> bool" where
  "hasLists text = rx_test (rx_alt rx_bullet rx_numberedItem) text"

definition rx_headerStart :: matcher where
  "rx_headerStart bef s =
     (if line_start bef \<and> takeWhile is_hash s \<noteq> [] \<and> takeWhile is_space (dropWhile is_hash s) \<noteq> []
      then Some (length (takeWhile is_hash s) + length (takeWhile is_space (dropWhile is_hash s)))
      else None)"

definition hasHeaders :: "string \<Rightarrow> bool" where
  "hasHeaders text = rx_test rx_headerStart text"

definition sentenceCount :: "string \<Rightarrow> nat" where
  "sentenceCount text = length (match_all rx_sentenceEnd [] 0 text) + 1"

definition calculateVariance :: "nat list \<Rightarrow> real" where
  "calculateVariance numbers =
     (if numbers = [] then 0
      else sum_list (map (\<lambda>v. (real v - real (sum_list numbers) / real (length numbers))\<^sup>2) numbers)
           / real (length numbers))"

definition avgSentenceLength :: "string \<Rightarrow> real" where
  "avgSentenceLength text =
     (if sentenceCount text > 0 then real (countTokens text) / real (sentenceCount text) else 0)"

definition avgParagraphSize :: "string \<Rightarrow> real" where
  "avgParagraphSize text =
     (if length (blankParagraphs text) > 0
      then real (countTokens text) / real (length (blankParagraphs text))
      else real (countTokens text))"

definition maxParagraphLength :: "string \<Rightarrow> nat" where
  "maxParagraphLength text = fold max (map length (blankParagraphs text)) 0"

definition paragraphLengthVariance :: "string \<Rightarrow> real" where
  "paragraphLengthVariance text = calculateVariance (map length (blankParagraphs text))"

definition agenticNotes :: "string \<Rightarrow> string \<Rightarrow> string" where
  "agenticNotes strategyDescription text =
     ''Agentic chunking automatically selected '' @ strategyDescription @
     '' based on document analysis: '' @ show_nat (length (blankParagraphs text)) @ '' paragraphs, '' @
     show_nat (sentenceCount text) @ '' sentences, avg sentence length: '' @
     show_int (js_round (avgSentenceLength text)) @ '' tokens, avg paragraph size: '' @
     show_int (js_round (avgParagraphSize text)) @ '' tokens, paragraph length variance: '' @
     show_int (js_round (paragraphLengthVariance text)) @
     (if hasCode text then '', contains code'' else []) @
     (if hasLists text then '', contains lists'' else []) @
     (if hasHeaders text then '', contains headers'' else []) @ ''.''"

definition isTruthy :: "int option \<Rightarrow> bool" where
  "isTruthy x = (case x of None \<Rightarrow> False | Some v \<Rightarrow> v \<noteq> 0)"

text \<open>The strategy that the analysis selects, with its description.\<close>

definition agenticSelect :: "string \<Rightarrow> ChunkingOptions \<Rightarrow> ChunkingResult option \<times> string" where
  "agenticSelect text options =
     (let paragraphCount = int (length (blankParagraphs text))
      in if hasCode text then
           (Some (paragraphBasedChunking text
              (options\<lparr>chunkSize := Some (orIfFalsy (max 3 (min 5 paragraphCount)) (chunkSize options))\<rparr>)),
            ''paragraph-based chunking optimized for code content'')
         else if paragraphCount \<le> 1 \<and> sentenceCount text > 10 then
           (sentenceBasedChunking text
              (options\<lparr>chunkSize := Some (orIfFalsy
                 (max 3 (min 8 (ceil_div (int (sentenceCount text)) 3))) (chunkSize options))\<rparr>),
            ''sentence-based chunking for single paragraphs with many sentences'')
         else if paragraphLengthVariance text > 10000 \<and> maxParagraphLength text > 1000 then
           (hybridChunking text
              (options\<lparr>overlap := Some (orIfFalsy
                 (min 50 (if isTruthy (chunkSize options) then ceil_div (the (chunkSize options)) 5 else 20))
                 (overlap options))\<rparr>),
            ''hybrid chunking for text with variable paragraph lengths'')
         else if avgParagraphSize text < 50 \<and> paragraphCount > 5 then
           (Some (paragraphBasedChunking text
              (options\<lparr>chunkSize := Some (orIfFalsy
                 (max 3 (min 10 (ceil_div paragraphCount 3))) (chunkSize options))\<rparr>)),
            ''paragraph-based chunking for multiple small paragraphs'')
         else if avgSentenceLength text > 20 then
           (Some (slidingWindowChunking text
              (options\<lparr>overlap := Some (orIfFalsy
                 (min 50 (if isTruthy (chunkSize options) then ceil_div (the (chunkSize options)) 4 else 25))
                 (overlap options))\<rparr>)),
            ''sliding window with overlap for long sentences'')
         else if countTokens text > 1000 then
           (hybridChunking text options, ''hybrid chunking for lengthy documents'')
         else if hasLists text \<or> hasHeaders text then
           (Some (paragraphBasedChunking text options),
            ''paragraph-based chunking for structured content with lists or headers'')
         else
           (Some (heuristicSemanticChunking text options),
            ''semantic-like chunking for medium-sized documents''))"

definition agenticChunking :: "string \<Rightarrow> ChunkingOptions \<Rightarrow> ChunkingResult option" where
  "agenticChunking text options =
     map_option
       (\<lambda>r. r\<lparr>analysis := (analysis r)\<lparr>notes_of := agenticNotes (snd (agenticSelect text options)) text\<rparr>\<rparr>)
       (fst (agenticSelect text options))"

section \<open>The dispatcher\<close>

datatype ChunkingMethod =
  FixedLength | FixedLengthChars | Recursive | SentenceBased | ParagraphBased | SlidingWindow |
  Semantic | Hybrid | Agentic

text \<open>\<open>chunkTextAsync\<close>. The type of the method excludes the unsupported names; \<open>None\<close> is a
  call that does not return.\<close>

definition chunkTextAsync ::
  "provider \<Rightarrow> nat \<Rightarrow> string \<Rightarrow> ChunkingMethod \<Rightarrow> ChunkingOptions \<Rightarrow> ChunkingResult option" where
  "chunkTextAsync p argLimit text method options =
     (case method of
        FixedLength \<Rightarrow> fixedLengthChunking text options
      | FixedLengthChars \<Rightarrow> Some (fixedLengthCharsChunking text options)
      | Recursive \<Rightarrow> recursiveTextSplitter argLimit text options
      | SentenceBased \<Rightarrow> sentenceBasedChunking text options
      | ParagraphBased \<Rightarrow> Some (paragraphBasedChunking text options)
      | SlidingWindow \<Rightarrow> Some (slidingWindowChunking text options)
      | Semantic \<Rightarrow> Some (semanticChunking p text options)
      | Hybrid \<Rightarrow> hybridChunking text options
      | Agentic \<Rightarrow> agenticChunking text options)"

section \<open>Sequential chunk ids\<close>

definition numberedFromZero :: "Chunk list \<Rightarrow> bool" where
  "numberedFromZero cs = (map chunk_id cs = [0..<length cs])"

definition contiguous :: "ChunkingResult \<Rightarrow> bool" where
  "contiguous r = (numberedFromZero (chunks r) \<and> totalChunks (analysis r) = length (chunks r))"

section \<open>Notions of the coverage statement\<close>


definition tokenWindow :: "string list \<Rightarrow> int \<Rightarrow> int \<Rightarrow> nat \<Rightarrow> string list" where
  "tokenWindow toks cSize step k = js_slice toks (int k * step) (int k * step + cSize)"

definition tokenWindows :: "string list \<Rightarrow> int \<Rightarrow> int \<Rightarrow> nat \<Rightarrow> Chunk list" where
  "tokenWindows toks cSize step K = map (\<lambda>k. tokenChunk k (tokenWindow toks cSize step k)) [0..<K]"




section \<open>Notions of the statement on placeholders\<close>

text \<open>A chunk is the group of some consecutive sentences joined by spaces; a sentence is a
  stripped piece when it is \<open>postprocessText\<close> of a contiguous piece of the preprocessed
  text.\<close>

definition groupOf :: "string list \<Rightarrow> Chunk \<Rightarrow> bool" where
  "groupOf ss c = (\<exists>group. sublist group ss \<and> chunk_text c = js_join '' '' group)"

definition strippedPiece :: "string \<Rightarrow> string \<Rightarrow> bool" where
  "strippedPiece t s = (\<exists>q. sublist q (preprocessText t) \<and> s = postprocessText q)"

text \<open>One scan deletes occurrences of a marker: the text read is the stretches \<open>us\<close> with
  the marker between them, what is left is the stretches put together, and no stretch holds
  the marker.\<close>

definition deletion :: "string \<Rightarrow> string \<Rightarrow> string \<Rightarrow> bool" where
  "deletion marker q s =
     (\<exists>us. us \<noteq> [] \<and> q = js_join marker us \<and> s = concat us \<and>
           list_all (\<lambda>u. \<not> sublist marker u) us)"

section \<open>Step sizes and termination of the windowed strategies\<close>

lemma ceil_div_real:
  assumes "0 < b"
  shows "ceil_div a b = \<lceil>real_of_int a / real_of_int b\<rceil>"
proof -
  have "\<lceil>real_of_int a / real_of_int b\<rceil> = - \<lfloor>real_of_int (- a) / real_of_int b\<rfloor>"
    by (simp add: ceiling_def)
  also have "\<dots> = - ((- a) div b)"
    by (simp only: floor_divide_of_int_eq)
  finally show ?thesis
    by (simp add: ceil_div_def)
qed

lemma ceil_div_pos:
  assumes "0 < b" and "0 < a"
  shows "1 \<le> ceil_div a b"
proof -
  have "(- a) div b < 0"
    using assms by (simp add: div_neg_pos_less0)
  then show ?thesis
    by (simp add: ceil_div_def)
qed

lemma slidingStep_ge_1: "1 \<le> slidingStep cSize ov"
  by (simp add: slidingStep_def)

lemma adjustedStep_ge_1:
  assumes "1 \<le> step"
  shows "1 \<le> adjustedStep len step"
proof (cases "ceil_div (int len) step > 100")
  case False
  then show ?thesis using assms by (simp add: adjustedStep_def)
next
  case True
  have "0 < int len"
  proof (rule ccontr)
    assume "\<not> 0 < int len"
    then have "len = 0" by simp
    with True show False by (simp add: ceil_div_def)
  qed
  then have "1 \<le> ceil_div (int len) 100"
    by (intro ceil_div_pos) simp_all
  with True show ?thesis by (simp add: adjustedStep_def)
qed

lemma snapStep_ge_1: "1 \<le> snapStep options"
  by (simp add: snapStep_def effectiveOverlap_def)

text \<open>With a step of at least one the token loop of fixed-length chunking returns.\<close>

lemma fixedTokensLoop_returns:
  assumes "1 \<le> step"
  shows "\<exists>r. fixedTokensLoop toks cSize step i cs = Some r"
  using assms
proof (induction "nat (int (length toks) - i)" arbitrary: i cs rule: less_induct)
  case less
  show ?case
  proof (cases "i < int (length toks)")
    case False
    then show ?thesis by (subst fixedTokensLoop.simps) simp
  next
    case True
    have "nat (int (length toks) - (i + step)) < nat (int (length toks) - i)"
      using True less.prems by linarith
    from less.hyps [OF this less.prems]
    show ?thesis by (subst fixedTokensLoop.simps) (simp add: True)
  qed
qed

text \<open>With a step of zero it never leaves a non-empty token list whose first window is
  not a tiny fragment: no result is ever returned from a state with \<open>i = 0\<close>.\<close>

lemma fixedTokensLoop_stuck:
  assumes "fixedTokensLoop toks cSize step i cs = Some y"
  shows "\<not> (step = 0 \<and> i = 0 \<and> toks \<noteq> [] \<and> \<not> 4 * int (length (js_slice toks 0 cSize)) < cSize)"
  by (rule fixedTokensLoop.raw_induct
        [where P = "\<lambda>toks cSize step i cs y.
           \<not> (step = 0 \<and> i = 0 \<and> toks \<noteq> [] \<and> \<not> 4 * int (length (js_slice toks 0 cSize)) < cSize)",
         OF _ assms])
     (auto split: if_splits)

lemma tokenize_a_b_c: "tokenize ''a b c'' = [''a'', ''b'', ''c'']"
  by (simp add: tokenize_def is_space_def)

text \<open>
  Claim C1 (step positivity). The sliding-window and boundary-snapping strategies clamp their
  step to at least one (\<open>slidingStep_ge_1\<close>, \<open>adjustedStep_ge_1\<close>, \<open>snapStep_ge_1\<close>), but
  fixed-length chunking takes \<open>chunkSize - overlap\<close> as it is. For the text \<open>a b c\<close> with
  \<open>chunkSize = 5\<close> and \<open>overlap = 5\<close> the step is \<open>0\<close>, the loop index never moves and
  \<open>fixedLengthChunking\<close> returns no result.
\<close>

theorem fixedLength_zero_step_diverges:
  "fixedStep 5 5 = 0 \<and>
   fixedLengthChunking ''a b c'' (noOptions\<lparr>chunkSize := Some 5, overlap := Some 5\<rparr>) = None"
proof -
  have "fixedTokensLoop [''a'', ''b'', ''c''] 5 0 0 [] = None"
    using fixedTokensLoop_stuck [of "[''a'', ''b'', ''c'']" 5 0 0 "[]"]
    by (cases "fixedTokensLoop [''a'', ''b'', ''c''] 5 0 0 []") (auto simp: js_slice_def)
  then show ?thesis
    by (simp add: fixedLengthChunking_def fixedStep_def noOptions_def orDefault_def
        isCharacterBased_def tokenize_a_b_c)
qed


section \<open>The ceiling of sliding-window chunking\<close>

lemma slidingCharsLoop_length:
  "length cs < 100 \<Longrightarrow> length (slidingCharsLoop t cSize stp i cs) \<le> 100"
proof (induction t cSize stp i cs rule: slidingCharsLoop.induct)
  case (1 t cSize stp i cs)
  show ?case
    by (subst slidingCharsLoop.simps) (use 1 in auto)
qed

lemma slidingTokensLoop_length:
  "length cs < 100 \<Longrightarrow> length (slidingTokensLoop toks cSize stp i cs) \<le> 100"
proof (induction toks cSize stp i cs rule: slidingTokensLoop.induct)
  case (1 toks cSize stp i cs)
  show ?case
    by (subst slidingTokensLoop.simps) (use 1 in auto)
qed

lemma slidingWindow_length: "length (chunks (slidingWindowChunking t options)) \<le> 100"
  by (simp add: slidingWindowChunking_def Let_def mkResult_def slidingCharsLoop_length
      slidingTokensLoop_length)

lemma slidingCharsLoop_windows:
  assumes "cs = map (\<lambda>k. textChunk k (js_substring t (int k * stp) (min (int k * stp + cSize) (int (length t))))) [0..<length cs]"
    and "i = int (length cs) * stp"
  shows "slidingCharsLoop t cSize stp i cs =
     map (\<lambda>k. textChunk k (js_substring t (int k * stp) (min (int k * stp + cSize) (int (length t)))))
       [0..<length (slidingCharsLoop t cSize stp i cs)]"
  using assms
proof (induction t cSize stp i cs rule: slidingCharsLoop.induct)
  case (1 t cSize stp i cs)
  let ?w = "\<lambda>k. textChunk k (js_substring t (int k * stp) (min (int k * stp + cSize) (int (length t))))"
  have ext: "cs @ [textChunk (length cs) (js_substring t i (min (i + cSize) (int (length t))))] =
      map ?w [0..<length (cs @ [textChunk (length cs) (js_substring t i (min (i + cSize) (int (length t))))])]"
    using "1.prems" by simp
  have nxt: "i + stp = int (length (cs @ [textChunk (length cs) (js_substring t i (min (i + cSize) (int (length t))))])) * stp"
    using "1.prems"(2) by (simp add: algebra_simps)
  show ?case
  proof (subst (1 2) slidingCharsLoop.simps, goal_cases)
    case 1
    show ?case
      using "1.prems"(1) ext "1.IH" [OF _ _ _ ext nxt]
      by (auto simp del: map_append upt_Suc length_append)
  qed
qed


lemma slidingTokensLoop_windows:
  assumes "cs = map (\<lambda>k. tokenChunk k (js_slice toks (int k * stp) (min (int k * stp + cSize) (int (length toks))))) [0..<length cs]"
    and "i = int (length cs) * stp"
  shows "slidingTokensLoop toks cSize stp i cs =
     map (\<lambda>k. tokenChunk k (js_slice toks (int k * stp) (min (int k * stp + cSize) (int (length toks)))))
       [0..<length (slidingTokensLoop toks cSize stp i cs)]"
  using assms
proof (induction toks cSize stp i cs rule: slidingTokensLoop.induct)
  case (1 toks cSize stp i cs)
  let ?w = "\<lambda>k. tokenChunk k (js_slice toks (int k * stp) (min (int k * stp + cSize) (int (length toks))))"
  have ext: "cs @ [tokenChunk (length cs) (js_slice toks i (min (i + cSize) (int (length toks))))] =
      map ?w [0..<length (cs @ [tokenChunk (length cs) (js_slice toks i (min (i + cSize) (int (length toks))))])]"
    using "1.prems" by simp
  have nxt: "i + stp = int (length (cs @ [tokenChunk (length cs) (js_slice toks i (min (i + cSize) (int (length toks))))])) * stp"
    using "1.prems"(2) by (simp add: algebra_simps)
  show ?case
  proof (subst (1 2) slidingTokensLoop.simps, goal_cases)
    case 1
    show ?case
      using "1.prems"(1) ext "1.IH" [OF _ _ _ ext nxt]
      by (auto simp del: map_append upt_Suc length_append)
  qed
qed



text \<open>
  Claim C5. Sliding-window chunking returns at most 100 chunks for every text and every
  options value. Its natural step is \<open>chunkSize - overlap\<close> floored at one. The step \<open>stp\<close>
  that it uses is the natural step, unless the number of chunks estimated from the natural
  step, \<open>ceil(length / step)\<close>, exceeds 100: then it is \<open>ceil(length / 100)\<close>, where the length
  counts characters or tokens according to the mode. It is at least one, the \<open>k\<close>-th chunk
  returned is the window that starts at offset \<open>k * stp\<close>, and the notes report \<open>stp\<close> as the
  step size.
\<close>

theorem slidingWindow_ceiling:
  assumes "cSize = orDefault 100 (chunkSize options)"
    and "ov = orDefault 50 (overlap options)"
    and "units = (if 200 < cSize then length t else length (tokenize t))"
    and "natural = max 1 (cSize - ov)"
    and "stp = (if 100 < \<lceil>real units / real_of_int natural\<rceil> then \<lceil>real units / 100\<rceil> else natural)"
    and "r = slidingWindowChunking t options"
  shows "length (chunks r) \<le> 100 \<and> totalChunks (analysis r) \<le> 100 \<and> 1 \<le> stp \<and>
    chunks r =
      (if 200 < cSize
       then map (\<lambda>k. textChunk k (js_substring t (int k * stp) (min (int k * stp + cSize) (int (length t)))))
              [0..<length (chunks r)]
       else map (\<lambda>k. tokenChunk k (js_slice (tokenize t) (int k * stp)
                         (min (int k * stp + cSize) (int (length (tokenize t))))))
              [0..<length (chunks r)]) \<and>
    notes_of (analysis r) =
      slidingNotes (length (chunks r)) cSize ov stp (if 200 < cSize then ''characters'' else ''tokens'')"
proof -
  have pos: "0 < natural"
    using assms(4) by simp
  have nat: "natural = naturalStep options"
    using assms(1,2,4) by (simp add: naturalStep_def slidingStep_def)
  have un: "units = slidingUnits t options"
    using assms(1,3) by (simp add: slidingUnits_def)
  have est: "ceil_div (int units) natural = \<lceil>real units / real_of_int natural\<rceil>"
    using ceil_div_real [OF pos, of "int units"] by simp
  have wid: "ceil_div (int units) 100 = \<lceil>real units / 100\<rceil>"
    using ceil_div_real [of 100 "int units"] by simp
  have stp: "stp = slidingEffectiveStep t options"
    using assms(5) by (simp add: slidingEffectiveStep_def adjustedStep_def est wid nat [symmetric] un [symmetric])
  have step: "1 \<le> stp"
    unfolding stp slidingEffectiveStep_def using pos nat by (intro adjustedStep_ge_1) simp
  have len: "length (chunks r) \<le> 100"
    using slidingWindow_length [of t options] assms(6) by simp
  have total: "totalChunks (analysis r) = length (chunks r)"
    using assms(6) by (simp add: slidingWindowChunking_def Let_def mkResult_def)
  have cs: "chunks r = (if 200 < cSize then slidingCharsLoop t cSize stp 0 []
      else slidingTokensLoop (tokenize t) cSize stp 0 [])"
    using assms(1,6) stp by (simp add: slidingWindowChunking_def Let_def mkResult_def)
  have nts: "notes_of (analysis r) =
      slidingNotes (length (chunks r)) cSize ov stp (if 200 < cSize then ''characters'' else ''tokens'')"
    using assms(1,2,6) stp by (simp add: slidingWindowChunking_def Let_def mkResult_def)
  have win: "chunks r =
      (if 200 < cSize
       then map (\<lambda>k. textChunk k (js_substring t (int k * stp) (min (int k * stp + cSize) (int (length t)))))
              [0..<length (chunks r)]
       else map (\<lambda>k. tokenChunk k (js_slice (tokenize t) (int k * stp)
                         (min (int k * stp + cSize) (int (length (tokenize t))))))
              [0..<length (chunks r)])"
  proof (cases "200 < cSize")
    case True
    then have "chunks r = slidingCharsLoop t cSize stp 0 []"
      using cs by simp
    then show ?thesis
      using True slidingCharsLoop_windows [of "[]" t stp cSize 0] by simp
  next
    case False
    then have "chunks r = slidingTokensLoop (tokenize t) cSize stp 0 []"
      using cs by simp
    then show ?thesis
      using False slidingTokensLoop_windows [of "[]" "tokenize t" stp cSize 0] by simp
  qed
  show ?thesis
    using len total step win nts by simp
qed


lemma sliding_len3:
  "length (slidingCharsLoop (replicate 101 (CHR ''a'')) 385 2 0 []) = 3"
  by (simp add: slidingCharsLoop.simps js_substring_def)

theorem slidingWindow_ceiling_witness:
  "(2::int) = (if 100 < \<lceil>real (101::nat) / real_of_int (1::int)\<rceil> then \<lceil>real (101::nat) / 100\<rceil> else 1) \<and>
   chunks (slidingWindowChunking (replicate 101 (CHR ''a''))
      (noOptions\<lparr>chunkSize := Some 385, overlap := Some 384\<rparr>)) =
     [textChunk 0 (replicate 101 (CHR ''a'')), textChunk 1 (replicate 99 (CHR ''a'')),
      textChunk 2 (replicate 97 (CHR ''a''))] \<and>
   notes_of (analysis (slidingWindowChunking (replicate 101 (CHR ''a''))
      (noOptions\<lparr>chunkSize := Some 385, overlap := Some 384\<rparr>))) =
     ''Sliding window created 3 chunks with window size 385 characters and 384 characters of overlap (step size: 2).''"
proof -
  let ?t = "replicate 101 (CHR ''a'')"
  let ?o = "noOptions\<lparr>chunkSize := Some 385, overlap := Some 384\<rparr>"
  have c: "\<lceil>(101::real) / 100\<rceil> = 2"
    by (simp add: ceiling_eq_iff)
  have stp: "(2::int) = (if 100 < \<lceil>real (101::nat) / real_of_int (1::int)\<rceil> then \<lceil>real (101::nat) / 100\<rceil> else 1)"
    by (simp add: c)
  have e: "slidingEffectiveStep ?t ?o = 2"
    by (simp add: slidingEffectiveStep_def adjustedStep_def slidingUnits_def naturalStep_def
        slidingStep_def noOptions_def orDefault_def ceil_div_def)
  have len: "length (chunks (slidingWindowChunking ?t ?o)) = 3"
    unfolding slidingWindowChunking_def Let_def e
    using sliding_len3 by (simp add: mkResult_def noOptions_def orDefault_def)
  have n: "slidingNotes 3 385 384 2 ''characters'' =
      ''Sliding window created 3 chunks with window size 385 characters and 384 characters of overlap (step size: 2).''"
    by (simp add: slidingNotes_def show_int_def show_nat.simps digit_char_def)
  have w: "map (\<lambda>k. textChunk k (js_substring ?t (int k * 2) (min (int k * 2 + 385) 101))) [0..<3] =
      [textChunk 0 (replicate 101 (CHR ''a'')), textChunk 1 (replicate 99 (CHR ''a'')),
       textChunk 2 (replicate 97 (CHR ''a''))]"
    by (simp add: js_substring_def numeral_3_eq_3 numeral_2_eq_2)
  have cs: "orDefault 100 (chunkSize ?o) = 385"
    by (simp add: noOptions_def orDefault_def)
  have ov: "orDefault 50 (overlap ?o) = 384"
    by (simp add: noOptions_def orDefault_def)
  have un: "(101::nat) = (if 200 < (385::int) then length ?t else length (tokenize ?t))"
    by simp
  have na: "(1::int) = max 1 (385 - 384)"
    by simp
  note inst = slidingWindow_ceiling [of 385 ?o 384 101 ?t 1 2 "slidingWindowChunking ?t ?o",
      OF cs [symmetric] ov [symmetric] un na stp refl]
  have "chunks (slidingWindowChunking ?t ?o) =
      map (\<lambda>k. textChunk k (js_substring ?t (int k * 2) (min (int k * 2 + 385) 101))) [0..<3] \<and>
    notes_of (analysis (slidingWindowChunking ?t ?o)) = slidingNotes 3 385 384 2 ''characters''"
    using inst unfolding len by simp
  then show ?thesis
    unfolding w n using stp by simp
qed

section \<open>Semantic chunking without a key\<close>

lemma rx_split_from_no_match:
  assumes "\<And>b u. suffix u s \<Longrightarrow> u \<noteq> [] \<Longrightarrow> m b u = None"
  shows "rx_split_from m bef cur s = [cur @ s]"
  using assms
proof (induction s arbitrary: bef cur)
  case Nil
  show ?case by simp
next
  case (Cons c cs)
  have none: "m bef (c # cs) = None"
    by (rule Cons.prems) simp_all
  have "rx_split_from m (c # bef) (cur @ [c]) cs = [(cur @ [c]) @ cs]"
    by (rule Cons.IH) (auto intro: Cons.prems suffix_ConsI)
  then show ?case
    using none by simp
qed

lemma blankParagraphs_one_line:
  assumes "CHR 0x0A \<notin> set t"
  shows "length (blankParagraphs t) \<le> 1"
proof -
  have "rx_split_from rx_blankline [] [] t = [[] @ t]"
  proof (rule rx_split_from_no_match)
    fix b u
    assume "suffix u t" and "u \<noteq> []"
    then have "hd u \<in> set t"
      by (metis hd_in_set set_mono_suffix subsetD)
    then have "hd u \<noteq> CHR 0x0A"
      using assms by auto
    then show "rx_blankline b u = None"
      using \<open>u \<noteq> []\<close> by (cases u) (simp_all add: rx_blankline_def)
  qed
  then show ?thesis
    by (simp add: blankParagraphs_def rx_split_def)
qed

text \<open>
  The heuristic splitter counts the pieces that \<^verbatim>\<open>text.split(/\n\s*\n/).filter(Boolean)\<close>
  leaves, and a piece of white space is not empty. The text \<open>a\<close>, a blank line and one space
  has one paragraph for paragraph-based chunking, which trims the pieces before it drops the
  empty ones, but two pieces here: without a key, semantic chunking returns the structural
  result, a chunk that holds the whole text with its notes on section boundaries, and
  paragraph-based chunking returns the chunk \<open>a\<close>.
\<close>

lemma paragraphsOf_a_blank:
  "paragraphsOf [CHR ''a'', CHR 0x0A, CHR 0x0A, CHR '' ''] = [''a'']"
  by (simp add: paragraphsOf_def rx_split_def combinedSeparator_def rx_alt_def rx_blankline_def
      rx_windowsBlank_def rx_rule_def rx_header_def lastNewline_def trim_def is_space_def)

lemma blankParagraphs_a_blank:
  "blankParagraphs [CHR ''a'', CHR 0x0A, CHR 0x0A, CHR '' ''] = [''a'', '' '']"
  by (simp add: blankParagraphs_def rx_split_def rx_blankline_def lastNewline_def is_space_def)

lemma textLines_a_blank:
  "textLines [CHR ''a'', CHR 0x0A, CHR 0x0A, CHR '' ''] = [''a'', [], '' '']"
  by (simp add: textLines_def rx_split_def rx_literal_def)

lemma rawChunkTexts_a_blank:
  "rawChunkTexts [''a'', [], '' ''] = [[CHR ''a'', CHR 0x0A, CHR 0x0A, CHR '' '']]"
  by (simp add: rawChunkTexts_def semanticBoundaries_def isBoundaryLine_def isHeaderLine_def
      isRuleLine_def isNumberedLine_def is_hash_def is_rule_char_def is_space_def trim_def
      js_slice_def upt_rec nth_Cons')

lemma heuristic_a_blank:
  "heuristicSemanticChunking [CHR ''a'', CHR 0x0A, CHR 0x0A, CHR '' ''] noOptions =
     mkResult [textChunk 0 [CHR ''a'', CHR 0x0A, CHR 0x0A, CHR '' '']] (heuristicNotes 1 1)"
  by (simp add: heuristicSemanticChunking_def blankParagraphs_a_blank textLines_a_blank
      rawChunkTexts_a_blank numbered_def renumber_def limitChunks_def noOptions_def orDefault_def
      textChunk_def semanticBoundaries_def isBoundaryLine_def isHeaderLine_def numeral_2_eq_2
      isRuleLine_def isNumberedLine_def is_hash_def is_rule_char_def is_space_def trim_def upt_rec nth_Cons')

lemma paragraphBased_a_blank:
  "paragraphBasedChunking [CHR ''a'', CHR 0x0A, CHR 0x0A, CHR '' ''] noOptions =
     mkResult [textChunk 0 ''a'']
       ''Text was split into 1 paragraphs, resulting in 1 chunks with approximately 3 paragraphs per chunk.''"
  by (simp add: paragraphBasedChunking_def paragraphsOf_a_blank
      paragraphLoop.simps paragraphWindow_def adjustedParagraphsPerChunk_def paragraphsPerChunk_def
      paragraphStep_def paragraphNotes_def noOptions_def orDefault_def js_slice_def
      show_nat.simps show_int_def digit_char_def)

theorem semantic_one_paragraph_is_not_paragraphBased:
  "apiKey noOptions = None \<and>
   paragraphsOf [CHR ''a'', CHR 0x0A, CHR 0x0A, CHR '' ''] = [''a''] \<and>
   semanticChunking (\<lambda>key t. None) [CHR ''a'', CHR 0x0A, CHR 0x0A, CHR '' ''] noOptions =
     mkResult [textChunk 0 [CHR ''a'', CHR 0x0A, CHR 0x0A, CHR '' '']]
       ''Semantic-like chunking identified 1 potential section boundaries and created 1 chunks based on document structure and content.'' \<and>
   paragraphBasedChunking [CHR ''a'', CHR 0x0A, CHR 0x0A, CHR '' ''] noOptions =
     mkResult [textChunk 0 ''a'']
       ''Text was split into 1 paragraphs, resulting in 1 chunks with approximately 3 paragraphs per chunk.'' \<and>
   semanticChunking (\<lambda>key t. None) [CHR ''a'', CHR 0x0A, CHR 0x0A, CHR '' ''] noOptions \<noteq>
     paragraphBasedChunking [CHR ''a'', CHR 0x0A, CHR 0x0A, CHR '' ''] noOptions"
proof -
  have k: "apiKey noOptions = None"
    by (simp add: noOptions_def)
  have s: "semanticChunking (\<lambda>key t. None) [CHR ''a'', CHR 0x0A, CHR 0x0A, CHR '' ''] noOptions =
      heuristicSemanticChunking [CHR ''a'', CHR 0x0A, CHR 0x0A, CHR '' ''] noOptions"
    by (simp add: semanticChunking_def k)
  have n: "heuristicNotes 1 1 =
      ''Semantic-like chunking identified 1 potential section boundaries and created 1 chunks based on document structure and content.''"
    by (simp add: heuristicNotes_def show_nat.simps digit_char_def)
  show ?thesis
    unfolding s heuristic_a_blank paragraphBased_a_blank paragraphsOf_a_blank n
    using k by (simp add: mkResult_def textChunk_def)
qed

text \<open>
  Claim C6. Without an API key (the field absent or the empty string) semantic chunking
  returns exactly the result of the heuristic structural fallback on the same text and
  options, whatever the provider is. That result is the result of paragraph-based chunking
  when splitting the text at its blank lines (a line feed, white space, a line feed) leaves at
  most one piece that is not empty, a piece of white space counting as one; in particular it
  is for every text without a line feed.
\<close>

theorem semantic_without_key_is_heuristic:
  assumes "apiKey options = None \<or> apiKey options = Some []"
  shows "semanticChunking p t options = heuristicSemanticChunking t options \<and>
         (length (blankParagraphs t) \<le> 1 \<longrightarrow>
            semanticChunking p t options = paragraphBasedChunking t options) \<and>
         (CHR 0x0A \<notin> set t \<longrightarrow>
            semanticChunking p t options = paragraphBasedChunking t options)"
  using assms blankParagraphs_one_line [of t]
  by (auto simp: semanticChunking_def heuristicSemanticChunking_def)

lemma paragraphBased_hello:
  "paragraphBasedChunking ''hello world'' noOptions =
     mkResult [textChunk 0 ''hello world'']
       ''Text was split into 1 paragraphs, resulting in 1 chunks with approximately 3 paragraphs per chunk.''"
  by (simp add: paragraphBasedChunking_def paragraphsOf_def rx_split_def combinedSeparator_def
      rx_alt_def rx_blankline_def rx_windowsBlank_def rx_rule_def rx_header_def trim_def is_space_def
      paragraphLoop.simps paragraphWindow_def adjustedParagraphsPerChunk_def paragraphsPerChunk_def
      paragraphStep_def paragraphNotes_def noOptions_def orDefault_def js_slice_def
      show_nat.simps show_int_def digit_char_def)

theorem semantic_without_key_is_heuristic_witness:
  "(apiKey noOptions = None \<or> apiKey noOptions = Some []) \<and>
   length (blankParagraphs ''hello world'') \<le> 1 \<and>
   CHR 0x0A \<notin> set ''hello world'' \<and>
   semanticChunking (\<lambda>key t. None) ''hello world'' noOptions = heuristicSemanticChunking ''hello world'' noOptions \<and>
   semanticChunking (\<lambda>key t. None) ''hello world'' noOptions =
     mkResult [textChunk 0 ''hello world'']
       ''Text was split into 1 paragraphs, resulting in 1 chunks with approximately 3 paragraphs per chunk.''"
proof -
  have k: "apiKey noOptions = None \<or> apiKey noOptions = Some []"
    by (simp add: noOptions_def)
  have n: "CHR 0x0A \<notin> set ''hello world''"
    by simp
  have l: "length (blankParagraphs ''hello world'') \<le> 1"
    by (simp add: blankParagraphs_def rx_split_def rx_blankline_def)
  from semantic_without_key_is_heuristic [OF k, of "\<lambda>key t. None" "''hello world''"] k l n
  show ?thesis
    unfolding paragraphBased_hello by auto
qed

section \<open>Cosine similarity of a zero vector\<close>

text \<open>The similarity of the chunking library checks the norms before it divides.\<close>

lemma cosineSimilarity_zero_norm:
  assumes "length vecA = length vecB" and "dot vecA vecA = 0 \<or> dot vecB vecB = 0"
  shows "cosineSimilarity vecA vecB = Inr 0"
  using assms by (auto simp: cosineSimilarity_def)

text \<open>
  Claim C9. The similarity of the retrieval ranker has no such check. For the zero query
  vector \<open>[0, 0]\<close> and the chunk embedding \<open>[1, 0]\<close> it divides \<open>0\<close> by \<open>0\<close>: the score of
  the query result is \<open>NaN\<close>, where the similarity of the chunking library returns \<open>0\<close>.
\<close>

theorem ranker_zero_vector_NaN:
  "calculateCosineSimilarity [0, 0] [1, 0] = NaN \<and>
   cosineSimilarity [0, 0] [1, 0] = Inr 0 \<and>
   map_option (map score) (findSimilarChunks [0, 0]
     [\<lparr>chunk_id = 0, chunk_text = ''a'', chunk_tokens = 1, chunk_characters = 1,
        chunk_embedding = Some [1, 0]\<rparr>] 5) = Some [NaN]"
  by (simp add: calculateCosineSimilarity_def cosineSimilarity_def dot_def js_divide_def
      findSimilarChunks_def sortByScore_def similarities_def)

section \<open>The limit on the number of chunks\<close>

text \<open>The loops of paragraph-based and boundary-snapping chunking count their chunks, and
  the heuristic and the recursive splitter cut their lists: these four honour \<open>maxChunks\<close>.\<close>

lemma paragraphLoop_limit:
  assumes "0 < orDefault 0 (maxChunks options)" and "int (length cs) < orDefault 0 (maxChunks options)"
  shows "int (length (paragraphLoop ps options i cs)) \<le> orDefault 0 (maxChunks options)"
  using assms(2)
proof (induction ps options i cs rule: paragraphLoop.induct)
  case (1 ps options i cs)
  show ?case
    by (subst paragraphLoop.simps) (use 1 assms(1) in auto)
qed

lemma snapLoop_limit:
  assumes "0 < orDefault 0 (maxChunks options)" and "int (length cs) < orDefault 0 (maxChunks options)"
  shows "int (length (snapLoop t options i cs)) \<le> orDefault 0 (maxChunks options)"
  using assms(2)
proof (induction t options i cs rule: snapLoop.induct)
  case (1 t options i cs)
  show ?case
    by (subst snapLoop.simps) (use 1 assms(1) in auto)
qed

lemma paragraphBased_maxChunks:
  assumes "0 < orDefault 0 (maxChunks options)"
  shows "int (length (chunks (paragraphBasedChunking t options))) \<le> orDefault 0 (maxChunks options)"
  using paragraphLoop_limit [OF assms, of "[]"] assms
  by (simp add: paragraphBasedChunking_def mkResult_def)

lemma fixedLengthChars_maxChunks:
  assumes "0 < orDefault 0 (maxChunks options)"
  shows "int (length (chunks (fixedLengthCharsChunking t options))) \<le> orDefault 0 (maxChunks options)"
  using snapLoop_limit [OF assms, of "[]"] assms
  by (simp add: fixedLengthCharsChunking_def mkResult_def)

lemma length_limitChunks: "0 < mx \<Longrightarrow> int (length (limitChunks mx cs)) \<le> mx"
  by (auto simp: limitChunks_def js_slice_def)

lemma heuristic_maxChunks:
  assumes "0 < orDefault 0 (maxChunks options)"
  shows "int (length (chunks (heuristicSemanticChunking t options))) \<le> orDefault 0 (maxChunks options)"
  using assms paragraphBased_maxChunks [OF assms]
  by (simp add: heuristicSemanticChunking_def Let_def mkResult_def renumber_def length_limitChunks)

lemma recursiveTry_maxChunks:
  assumes "0 < orDefault 0 (maxChunks options)" and "recursiveTry argLimit t options = Inr r"
  shows "int (length (chunks r)) \<le> orDefault 0 (maxChunks options)"
  using assms
  by (auto simp: recursiveTry_def Let_def bindE_def mkResult_def numbered_def length_limitChunks
      split: sum.splits)

lemmas rx_eval = rx_replace_def rx_split_def rx_title_def rx_decimal_def rx_literal_def
  rx_blankline_def lastNewline_def word_start_def is_word_char_def is_upper_def is_digit_def
  is_space_def

lemma allSentences_abcd:
  "allSentences [CHR ''a'', CHR 0x0A, CHR 0x0A, CHR ''b'', CHR 0x0A, CHR 0x0A, CHR ''c'', CHR 0x0A, CHR 0x0A, CHR ''d'']
     = [''a'', ''b'', ''c'', ''d'']"
  by (simp add: allSentences_def preprocessText_def postprocessText_def paragraphSentences_def
      hasTerminal_def rx_eval)

lemma sentenceLoop_abcd:
  "sentenceLoop [''a'', ''b'', ''c'', ''d''] 2 1 0 [] =
     Some [textChunk 0 ''a b'', textChunk 1 ''b c'', textChunk 2 ''c d'', textChunk 3 ''d'']"
  by (simp add: sentenceLoop.simps js_slice_def numeral_2_eq_2 numeral_3_eq_3)

text \<open>
  Claim C4 (the ceiling \<open>maxChunks\<close>). Sentence-based chunking cuts the list of sentences to
  \<open>maxChunks * chunkSize\<close> before it groups them and never counts its chunks. With an
  overlap the step is smaller than the chunk size, and more than \<open>maxChunks\<close> chunks come
  out, unlike in the strategies above: four paragraphs \<open>a\<close>, \<open>b\<close>, \<open>c\<close>, \<open>d\<close> with \<open>chunkSize = 2\<close>, \<open>overlap = 1\<close> and
  \<open>maxChunks = 2\<close> give four chunks.
\<close>

theorem sentenceBased_exceeds_maxChunks:
  "map_option (\<lambda>r. (map chunk_text (chunks r), totalChunks (analysis r)))
     (sentenceBasedChunking
        [CHR ''a'', CHR 0x0A, CHR 0x0A, CHR ''b'', CHR 0x0A, CHR 0x0A, CHR ''c'', CHR 0x0A, CHR 0x0A, CHR ''d'']
        (noOptions\<lparr>chunkSize := Some 2, overlap := Some 1, maxChunks := Some 2\<rparr>))
   = Some ([''a b'', ''b c'', ''c d'', ''d''], 4)"
  by (simp add: sentenceBasedChunking_def allSentences_abcd sentencesToProcess_def js_slice_def
      fixedStep_def noOptions_def orDefault_def sentenceLoop_abcd mkResult_def textChunk_def)


section \<open>Semantic chunking when the provider fails\<close>

lemma dot_zeros: "dot (replicate n 0) (replicate n 0) = 0"
  by (simp add: dot_def zip_replicate map_replicate_const sum_list_replicate)

lemma blankParagraphs_a_b:
  "blankParagraphs [CHR ''a'', CHR 0x0A, CHR 0x0A, CHR ''b''] = [''a'', ''b'']"
  by (simp add: blankParagraphs_def rx_split_def rx_blankline_def lastNewline_def is_space_def)

lemma similarityMatrix_zeros:
  "similarityMatrix [replicate 1536 0, replicate 1536 0] = Inr [[0, 0], [0, 0]]"
  by (simp add: similarityMatrix_def bindE_def cosineSimilarity_def dot_zeros)

lemma clusterLoop_zeros:
  "clusterLoop [[0, 0], [0, 0]] (targetClusters (Suc (Suc 0)) 0) [[0], [Suc 0]] = [[0, Suc 0]]"
  by (simp add: clusterLoop.simps targetClusters_def findMerge_def mergeStep_def avgSimilarity_def
      mergeAt_def)

lemma semanticTry_zeros:
  "semanticTry (\<lambda>key t. None) ''k'' [CHR ''a'', CHR 0x0A, CHR 0x0A, CHR ''b''] (noOptions\<lparr>apiKey := Some ''k''\<rparr>) =
     Inr (mkResult [textChunk 0 [CHR ''a'', CHR 0x0A, CHR 0x0A, CHR ''b'']] (semanticNotes 1 0))"
  by (simp add: semanticTry_def blankParagraphs_a_b getOpenAIEmbeddings_def similarityMatrix_zeros
      bindE_def noOptions_def orDefault_def clusterLoop_zeros Let_def rawChunksOf_def rawChunkOf_def
      finalTexts_def numbered_def minIndex_def upt_rec)


lemma textLines_a_b:
  "textLines [CHR ''a'', CHR 0x0A, CHR 0x0A, CHR ''b''] = [''a'', [], ''b'']"
  by (simp add: textLines_def rx_split_def rx_literal_def)

lemma rawChunkTexts_a_b: "rawChunkTexts [''a'', [], ''b''] = [[CHR 0x0A, CHR ''b'']]"
  by (simp add: rawChunkTexts_def semanticBoundaries_def isBoundaryLine_def isHeaderLine_def
      isRuleLine_def isNumberedLine_def is_hash_def is_rule_char_def is_space_def trim_def
      js_slice_def upt_rec nth_Cons')

lemma heuristic_a_b:
  "heuristicSemanticChunking [CHR ''a'', CHR 0x0A, CHR 0x0A, CHR ''b''] (noOptions\<lparr>apiKey := Some ''k''\<rparr>) =
     mkResult [textChunk 0 [CHR 0x0A, CHR ''b'']] (heuristicNotes 2 1)"
  by (simp add: heuristicSemanticChunking_def blankParagraphs_a_b textLines_a_b rawChunkTexts_a_b
      numbered_def renumber_def limitChunks_def noOptions_def orDefault_def textChunk_def
      semanticBoundaries_def isBoundaryLine_def isHeaderLine_def numeral_2_eq_2
      isRuleLine_def isNumberedLine_def is_hash_def is_rule_char_def is_space_def trim_def upt_rec nth_Cons')

text \<open>
  Claim C7. \<open>getOpenAIEmbeddings\<close> catches the failure of a request itself and answers
  with a zero vector, so the \<open>try\<close> block of semantic chunking never sees it. With a key, a
  provider whose every request fails and the two paragraphs \<open>a\<close> and \<open>b\<close>, the result is
  the one of the embedding path (one section that holds the whole text), not the result of
  the heuristic structural splitter (one chunk that holds the second paragraph).
\<close>

theorem semantic_provider_failure_is_not_heuristic:
  "semanticChunking (\<lambda>key t. None) [CHR ''a'', CHR 0x0A, CHR 0x0A, CHR ''b''] (noOptions\<lparr>apiKey := Some ''k''\<rparr>) =
     mkResult [textChunk 0 [CHR ''a'', CHR 0x0A, CHR 0x0A, CHR ''b'']]
       ''Advanced semantic chunking with OpenAI embeddings identified 1 thematic sections using agglomerative clustering'' \<and>
   heuristicSemanticChunking [CHR ''a'', CHR 0x0A, CHR 0x0A, CHR ''b''] (noOptions\<lparr>apiKey := Some ''k''\<rparr>) =
     mkResult [textChunk 0 [CHR 0x0A, CHR ''b'']]
       ''Semantic-like chunking identified 2 potential section boundaries and created 1 chunks based on document structure and content.''"
  by (simp add: semanticChunking_def semanticTry_zeros heuristic_a_b semanticNotes_def
      heuristicNotes_def show_nat.simps digit_char_def)


section \<open>Id contiguity\<close>

lemma contiguous_mkResult: "numberedFromZero cs \<Longrightarrow> contiguous (mkResult cs n)"
  by (simp add: contiguous_def mkResult_def)

lemma numberedFromZero_Nil: "numberedFromZero []"
  by (simp add: numberedFromZero_def)

lemma numberedFromZero_snoc_text:
  "numberedFromZero cs \<Longrightarrow> numberedFromZero (cs @ [textChunk (length cs) t])"
  by (simp add: numberedFromZero_def textChunk_def)

lemma numberedFromZero_snoc_token:
  "numberedFromZero cs \<Longrightarrow> numberedFromZero (cs @ [tokenChunk (length cs) ts])"
  by (simp add: numberedFromZero_def tokenChunk_def)

lemma numberedFromZero_single_text: "numberedFromZero [textChunk 0 t]"
  by (simp add: numberedFromZero_def textChunk_def)

lemma numberedFromZero_single_token: "numberedFromZero [tokenChunk 0 ts]"
  by (simp add: numberedFromZero_def tokenChunk_def)

lemmas numbered_simps = numberedFromZero_Nil numberedFromZero_snoc_text numberedFromZero_snoc_token
  numberedFromZero_single_text numberedFromZero_single_token

lemma numberedFromZero_numbered: "numberedFromZero (numbered ts)"
  by (simp add: numberedFromZero_def numbered_def textChunk_def map_fst_enumerate comp_def case_prod_unfold)

lemma numberedFromZero_renumber: "numberedFromZero (renumber cs)"
  by (simp add: numberedFromZero_def renumber_def map_fst_enumerate comp_def case_prod_unfold)

lemma fixedCharsLoop_numbered:
  assumes "fixedCharsLoop t cSize step i cs = Some r" and "numberedFromZero cs"
  shows "numberedFromZero r"
proof -
  have "numberedFromZero cs \<longrightarrow> numberedFromZero r"
    by (rule fixedCharsLoop.raw_induct
          [where P = "\<lambda>t cSize step i cs r. numberedFromZero cs \<longrightarrow> numberedFromZero r",
           OF _ assms(1)])
       (auto split: if_splits simp: numbered_simps)
  with assms(2) show ?thesis by simp
qed

lemma fixedTokensLoop_numbered:
  assumes "fixedTokensLoop toks cSize step i cs = Some r" and "numberedFromZero cs"
  shows "numberedFromZero r"
proof -
  have "numberedFromZero cs \<longrightarrow> numberedFromZero r"
    by (rule fixedTokensLoop.raw_induct
          [where P = "\<lambda>toks cSize step i cs r. numberedFromZero cs \<longrightarrow> numberedFromZero r",
           OF _ assms(1)])
       (auto split: if_splits simp: numbered_simps)
  with assms(2) show ?thesis by simp
qed

lemma sentenceLoop_numbered:
  assumes "sentenceLoop ss cSize step i cs = Some r" and "numberedFromZero cs"
  shows "numberedFromZero r"
proof -
  have "numberedFromZero cs \<longrightarrow> numberedFromZero r"
    by (rule sentenceLoop.raw_induct
          [where P = "\<lambda>ss cSize step i cs r. numberedFromZero cs \<longrightarrow> numberedFromZero r",
           OF _ assms(1)])
       (auto split: if_splits simp: numbered_simps)
  with assms(2) show ?thesis by simp
qed

lemma snapLoop_numbered:
  "numberedFromZero cs \<Longrightarrow> numberedFromZero (snapLoop t options i cs)"
proof (induction t options i cs rule: snapLoop.induct)
  case (1 t options i cs)
  show ?case
    by (subst snapLoop.simps) (use 1 in \<open>auto simp: numbered_simps\<close>)
qed

lemma paragraphLoop_numbered:
  "numberedFromZero cs \<Longrightarrow> numberedFromZero (paragraphLoop ps options i cs)"
proof (induction ps options i cs rule: paragraphLoop.induct)
  case (1 ps options i cs)
  show ?case
    by (subst paragraphLoop.simps) (use 1 in \<open>auto simp: numbered_simps\<close>)
qed

lemma slidingCharsLoop_numbered:
  "numberedFromZero cs \<Longrightarrow> numberedFromZero (slidingCharsLoop t cSize stp i cs)"
proof (induction t cSize stp i cs rule: slidingCharsLoop.induct)
  case (1 t cSize stp i cs)
  show ?case
    by (subst slidingCharsLoop.simps) (use 1 in \<open>auto simp: numbered_simps\<close>)
qed

lemma slidingTokensLoop_numbered:
  "numberedFromZero cs \<Longrightarrow> numberedFromZero (slidingTokensLoop toks cSize stp i cs)"
proof (induction toks cSize stp i cs rule: slidingTokensLoop.induct)
  case (1 toks cSize stp i cs)
  show ?case
    by (subst slidingTokensLoop.simps) (use 1 in \<open>auto simp: numbered_simps\<close>)
qed

lemma contiguous_fixedLengthChars: "contiguous (fixedLengthCharsChunking t options)"
  by (simp add: fixedLengthCharsChunking_def contiguous_mkResult snapLoop_numbered numberedFromZero_Nil)

lemma contiguous_paragraphBased: "contiguous (paragraphBasedChunking t options)"
  by (simp add: paragraphBasedChunking_def contiguous_mkResult paragraphLoop_numbered numberedFromZero_Nil)

lemma contiguous_slidingWindow: "contiguous (slidingWindowChunking t options)"
  by (simp add: slidingWindowChunking_def Let_def contiguous_mkResult slidingCharsLoop_numbered
      slidingTokensLoop_numbered numberedFromZero_Nil)

lemma contiguous_fixedLength:
  assumes "fixedLengthChunking t options = Some r"
  shows "contiguous r"
  using assms
  by (auto simp: fixedLengthChunking_def Let_def contiguous_fixedLengthChars contiguous_mkResult
      fixedCharsLoop_numbered fixedTokensLoop_numbered numberedFromZero_Nil
      split: if_splits option.splits)

lemma contiguous_sentenceBased:
  assumes "sentenceBasedChunking t options = Some r"
  shows "contiguous r"
  using assms
  by (auto simp: sentenceBasedChunking_def Let_def contiguous_mkResult
      sentenceLoop_numbered numberedFromZero_Nil split: option.splits)

lemma contiguous_heuristic: "contiguous (heuristicSemanticChunking t options)"
  by (simp add: heuristicSemanticChunking_def Let_def contiguous_paragraphBased contiguous_mkResult
      numberedFromZero_renumber)

lemma contiguous_semantic: "contiguous (semanticChunking p t options)"
  by (auto simp: semanticChunking_def semanticTry_def Let_def bindE_def contiguous_heuristic
      contiguous_paragraphBased contiguous_mkResult numberedFromZero_numbered
      split: option.splits sum.splits if_splits)

lemma contiguous_hybrid:
  assumes "hybridChunking t options = Some r"
  shows "contiguous r"
  using assms
  by (auto simp: hybridChunking_def hybridMerge_def contiguous_mkResult numberedFromZero_renumber
      split: option.splits)

lemma contiguous_recursive:
  assumes "recursiveTextSplitter argLimit t options = Some r"
  shows "contiguous r"
  using assms
  by (auto simp: recursiveTextSplitter_def recursiveTry_def Let_def bindE_def contiguous_mkResult
      numberedFromZero_numbered contiguous_fixedLength split: sum.splits)

lemma contiguous_notes: "contiguous r \<Longrightarrow> contiguous (r\<lparr>analysis := (analysis r)\<lparr>notes_of := n\<rparr>\<rparr>)"
  by (simp add: contiguous_def)

lemma contiguous_agenticSelect:
  assumes "fst (agenticSelect t options) = Some r"
  shows "contiguous r"
  using assms
  by (auto simp: agenticSelect_def Let_def contiguous_paragraphBased contiguous_slidingWindow
      contiguous_heuristic contiguous_sentenceBased contiguous_hybrid split: if_splits)

lemma contiguous_agentic:
  assumes "agenticChunking t options = Some r"
  shows "contiguous r"
  using assms contiguous_agenticSelect
  by (auto simp: agenticChunking_def contiguous_notes)

text \<open>
  Claim C3 (id contiguity). Whatever the strategy, the text and the options, a result that
  the dispatcher returns numbers its chunks \<open>0, 1, 2, \<dots>\<close> in order, and its
  \<open>totalChunks\<close> is the number of its chunks.
\<close>

theorem ids_contiguous:
  assumes "chunkTextAsync p argLimit t strategy options = Some r"
  shows "map chunk_id (chunks r) = [0..<length (chunks r)] \<and>
         totalChunks (analysis r) = length (chunks r)"
proof -
  have "contiguous r"
    using assms
    by (cases strategy)
       (auto simp: chunkTextAsync_def contiguous_fixedLength contiguous_fixedLengthChars
          contiguous_recursive contiguous_sentenceBased contiguous_paragraphBased
          contiguous_slidingWindow contiguous_semantic contiguous_hybrid contiguous_agentic)
  then show ?thesis
    by (simp add: contiguous_def numberedFromZero_def)
qed


lemma tokenize_a_b: "tokenize ''a b'' = [''a'', ''b'']"
  by (simp add: tokenize_def is_space_def)

theorem ids_contiguous_witness:
  "chunkTextAsync (\<lambda>key t. None) 0 ''a b'' FixedLength noOptions =
     Some (mkResult [tokenChunk 0 [''a'', ''b'']] (fixedNotes 1 100 0 ''tokens'')) \<and>
   map chunk_id (chunks (mkResult [tokenChunk 0 [''a'', ''b'']] (fixedNotes 1 100 0 ''tokens''))) =
     [0..<length (chunks (mkResult [tokenChunk 0 [''a'', ''b'']] (fixedNotes 1 100 0 ''tokens'')))] \<and>
   totalChunks (analysis (mkResult [tokenChunk 0 [''a'', ''b'']] (fixedNotes 1 100 0 ''tokens''))) =
     length (chunks (mkResult [tokenChunk 0 [''a'', ''b'']] (fixedNotes 1 100 0 ''tokens'')))"
proof -
  have h: "chunkTextAsync (\<lambda>key t. None) 0 ''a b'' FixedLength noOptions =
      Some (mkResult [tokenChunk 0 [''a'', ''b'']] (fixedNotes 1 100 0 ''tokens''))"
    by (simp add: chunkTextAsync_def fixedLengthChunking_def isCharacterBased_def noOptions_def
        orDefault_def fixedStep_def tokenize_a_b fixedTokensLoop.simps js_slice_def)
  from ids_contiguous [OF h] h show ?thesis by simp
qed


section \<open>The fallback of the recursive splitter\<close>

text \<open>
  The \<open>try\<close> block of the splitter does fail, whatever the bound of the engine on the
  arguments of a call is: a text of more words \<open>a\<close> than the bound, longer than the chunk
  size, is split into its words at the separator \<open>" "\<close>, the words fit the chunk size, and the
  level above passes them to \<open>push\<close> as so many arguments.
\<close>

lemma trim_eq_Nil: "trim s = [] \<longleftrightarrow> (\<forall>c\<in>set s. is_space c)"
proof
  assume "trim s = []"
  then have all: "\<forall>x\<in>set (dropWhile is_space s). is_space x"
    by (simp add: trim_def dropWhile_eq_Nil_conv)
  have "dropWhile is_space s = []"
  proof (rule ccontr)
    assume ne: "dropWhile is_space s \<noteq> []"
    then have "\<not> is_space (hd (dropWhile is_space s))"
      by (rule hd_dropWhile)
    moreover have "hd (dropWhile is_space s) \<in> set (dropWhile is_space s)"
      using ne by simp
    ultimately show False using all by blast
  qed
  then show "\<forall>c\<in>set s. is_space c"
    unfolding dropWhile_eq_Nil_conv .
next
  assume "\<forall>c\<in>set s. is_space c"
  then show "trim s = []"
    by (auto simp: trim_def dest: set_dropWhileD)
qed

lemma set_words: "set (concat (replicate n ''a '')) \<subseteq> {CHR ''a'', CHR '' ''}"
  by (induction n) auto

lemma js_split_absent:
  assumes "c \<in> set sep" and "c \<notin> set s"
  shows "js_split sep s = [s]"
proof -
  have ne: "sep \<noteq> []"
    using assms(1) by auto
  have "rx_split_from (rx_literal sep) [] [] s = [[] @ s]"
  proof (rule rx_split_from_no_match)
    fix b u
    assume "suffix u s" and "u \<noteq> []"
    have "\<not> prefix sep u"
    proof
      assume "prefix sep u"
      then have "set sep \<subseteq> set u"
        by (rule set_mono_prefix)
      moreover have "set u \<subseteq> set s"
        using \<open>suffix u s\<close> by (rule set_mono_suffix)
      ultimately show False
        using assms by blast
    qed
    then show "rx_literal sep b u = None"
      by (simp add: rx_literal_def)
  qed
  then show ?thesis
    using ne by (simp add: js_split_def rx_split_def)
qed

lemma rx_split_from_words:
  "rx_split_from (rx_literal '' '') bef [] (concat (replicate n ''a '')) = replicate n ''a'' @ [[]]"
  by (induction n arbitrary: bef) (simp_all add: rx_literal_def)

lemma js_split_words:
  "js_split '' '' (concat (replicate n ''a '')) = replicate n ''a'' @ [[]]"
  by (simp add: js_split_def rx_split_def rx_split_from_words)

lemma segments_words:
  "filter (\<lambda>s. trim s \<noteq> []) (js_split '' '' (concat (replicate n ''a ''))) = replicate n ''a''"
  by (simp add: js_split_words trim_eq_Nil is_space_def)

lemma segments_absent:
  assumes "c \<in> set sep" and "c \<noteq> CHR ''a''" and "c \<noteq> CHR '' ''" and "0 < n"
  shows "filter (\<lambda>s. trim s \<noteq> []) (js_split sep (concat (replicate n ''a ''))) = [concat (replicate n ''a '')]"
proof -
  have "c \<notin> set (concat (replicate n ''a ''))"
    using set_words [of n] assms(2,3) by auto
  then have split: "js_split sep (concat (replicate n ''a '')) = [concat (replicate n ''a '')]"
    using assms(1) by (rule js_split_absent [rotated])
  have "CHR ''a'' \<in> set (concat (replicate n ''a ''))"
    using assms(4) by (cases n) auto
  moreover have "\<not> is_space CHR ''a''"
    by (simp add: is_space_def)
  ultimately have "trim (concat (replicate n ''a '')) \<noteq> []"
    unfolding trim_eq_Nil by blast
  then show ?thesis
    by (simp add: split)
qed

lemma length_words: "length (concat (replicate n ''a '')) = 2 * n"
  by (induction n) simp_all

lemma recursiveSplit_words_fails:
  assumes "argLimit < n" and "2 \<le> n" and "1 \<le> cSize" and "cSize < 2 * int n"
  shows "recursiveSplit argLimit Characters cSize defaultSeparators (concat (replicate n ''a '')) = Inl RangeError"
proof -
  let ?w = "concat (replicate n ''a '')"
  have n0: "0 < n" using assms(2) by simp
  have size: "\<not> sizeOf Characters ?w \<le> cSize"
    using assms(4) by (simp add: sizeOf_def length_words)
  have s1: "filter (\<lambda>s. trim s \<noteq> []) (js_split [CHR 0x0A, CHR 0x0A] ?w) = [?w]"
    by (rule segments_absent [of "CHR 0x0A"]) (simp_all add: n0)
  have s2: "filter (\<lambda>s. trim s \<noteq> []) (js_split [CHR 0x0A] ?w) = [?w]"
    by (rule segments_absent [of "CHR 0x0A"]) (simp_all add: n0)
  have s3: "filter (\<lambda>s. trim s \<noteq> []) (js_split ''. '' ?w) = [?w]"
    by (rule segments_absent [of "CHR ''.''"]) (simp_all add: n0)
  have s4: "filter (\<lambda>s. trim s \<noteq> []) (js_split '', '' ?w) = [?w]"
    by (rule segments_absent [of "CHR '',''"]) (simp_all add: n0)
  have fit: "list_all (\<lambda>segment. sizeOf Characters segment \<le> cSize) (replicate n ''a'')"
    using assms(3) by (simp add: list_all_iff sizeOf_def)
  have l5: "recursiveSplit argLimit Characters cSize ['' '', []] ?w = Inr (replicate n ''a'')"
    using size fit assms(2)
    by (subst recursiveSplit.simps) (simp add: segments_words del: recursiveSplit.simps)
  have l4: "recursiveSplit argLimit Characters cSize ['', '', '' '', []] ?w = Inl RangeError"
    using size assms(1) 
    by (subst recursiveSplit.simps) (simp add: s4 l5 concatE_def bindE_def del: recursiveSplit.simps)
  have l3: "recursiveSplit argLimit Characters cSize [''. '', '', '', '' '', []] ?w = Inl RangeError"
    using size 
    by (subst recursiveSplit.simps) (simp add: s3 l4 concatE_def bindE_def del: recursiveSplit.simps)
  have l2: "recursiveSplit argLimit Characters cSize [[CHR 0x0A], ''. '', '', '', '' '', []] ?w = Inl RangeError"
    using size 
    by (subst recursiveSplit.simps) (simp add: s2 l3 concatE_def bindE_def del: recursiveSplit.simps)
  show ?thesis
    unfolding defaultSeparators_def
    using size
    by (subst recursiveSplit.simps) (simp add: s1 l2 concatE_def bindE_def del: recursiveSplit.simps)
qed

lemma recursiveTry_words_fails:
  assumes "argLimit < n" and "250 < n"
  shows "recursiveTry argLimit (concat (replicate n ''a '')) noOptions = Inl RangeError"
proof -
  have "recursiveSplit argLimit Characters 500 defaultSeparators (concat (replicate n ''a '')) = Inl RangeError"
    using assms by (intro recursiveSplit_words_fails) simp_all
  then show ?thesis
    by (simp add: recursiveTry_def noOptions_def orDefault_def bindE_def)
qed

text \<open>The fallback returns: with its default options the token loop of fixed-length chunking
  has the step \<open>100\<close>.\<close>

lemma fixedLength_tokens_returns:
  assumes "\<not> isCharacterBased options"
    and "1 \<le> fixedStep (orDefault 100 (chunkSize options)) (orDefault 0 (overlap options))"
  shows "\<exists>r. fixedLengthChunking t options = Some r"
proof -
  obtain cs where "fixedTokensLoop (tokenize t) (orDefault 100 (chunkSize options))
      (fixedStep (orDefault 100 (chunkSize options)) (orDefault 0 (overlap options))) 0 [] = Some cs"
    using fixedTokensLoop_returns [OF assms(2)] by blast
  then show ?thesis
    using assms(1) by (simp add: fixedLengthChunking_def Let_def)
qed

lemma fixedLength_notes_prefix:
  assumes "fixedLengthChunking t options = Some r"
  shows "prefix ''Text was divided into '' (notes_of (analysis r))"
  using assms
  by (auto simp: fixedLengthChunking_def Let_def fixedLengthCharsChunking_def mkResult_def
      fixedNotes_def snapNotes_def split: if_splits option.splits)

lemma recursiveTry_notes_prefix:
  assumes "recursiveTry argLimit t options = Inr r"
  shows "prefix ''Text was recursively split into '' (notes_of (analysis r))"
  using assms
  by (auto simp: recursiveTry_def Let_def bindE_def mkResult_def recursiveNotes_def split: sum.splits)

lemma notes_prefixes_differ:
  assumes "prefix ''Text was divided into '' n"
  shows "\<not> prefix ''Text was recursively split into '' n"
proof
  assume "prefix ''Text was recursively split into '' n"
  with assms have "prefix ''Text was divided into '' ''Text was recursively split into '' \<or>
      prefix ''Text was recursively split into '' ''Text was divided into ''"
    by (rule prefix_same_cases [THEN disjE]) simp_all
  then show False
    by simp
qed

text \<open>
  Claim C8. When the \<open>try\<close> block of the recursive splitter fails, the returned result is
  exactly the result of fixed-length chunking on the same text and options; its notes begin
  with \<open>Text was divided into\<close> and not with \<open>Text was recursively split into\<close>, as the notes
  of every successful recursive split do. So the notes of a result tell a fallback from a
  successful split: the fallback is not presented as a recursive split.
\<close>

theorem recursive_fallback_notes:
  assumes "recursiveTextSplitter argLimit t options = Some r"
  shows "(case recursiveTry argLimit t options of
            Inl e \<Rightarrow> fixedLengthChunking t options = Some r \<and>
                     prefix ''Text was divided into '' (notes_of (analysis r)) \<and>
                     \<not> prefix ''Text was recursively split into '' (notes_of (analysis r))
          | Inr r' \<Rightarrow> r = r' \<and>
                     prefix ''Text was recursively split into '' (notes_of (analysis r)) \<and>
                     \<not> prefix ''Text was divided into '' (notes_of (analysis r)))"
proof (cases "recursiveTry argLimit t options")
  case (Inl e)
  then have f: "fixedLengthChunking t options = Some r"
    using assms by (simp add: recursiveTextSplitter_def)
  from fixedLength_notes_prefix [OF f] notes_prefixes_differ f Inl show ?thesis
    by simp
next
  case (Inr r')
  then have e: "r = r'"
    using assms by (simp add: recursiveTextSplitter_def)
  from recursiveTry_notes_prefix [OF Inr] notes_prefixes_differ e Inr show ?thesis
    by auto
qed

theorem recursive_fallback_notes_witness:
  "\<exists>r. recursiveTextSplitter 130000 (concat (replicate 130001 ''a '')) noOptions = Some r \<and>
       recursiveTry 130000 (concat (replicate 130001 ''a '')) noOptions = Inl RangeError \<and>
       fixedLengthChunking (concat (replicate 130001 ''a '')) noOptions = Some r \<and>
       prefix ''Text was divided into '' (notes_of (analysis r)) \<and>
       \<not> prefix ''Text was recursively split into '' (notes_of (analysis r))"
proof -
  define w where "w = concat (replicate 130001 ''a '')"
  have fails: "recursiveTry 130000 w noOptions = Inl RangeError"
    unfolding w_def by (rule recursiveTry_words_fails) simp_all
  have "\<not> isCharacterBased noOptions"
    by (simp add: isCharacterBased_def noOptions_def orDefault_def)
  moreover have "1 \<le> fixedStep (orDefault 100 (chunkSize noOptions)) (orDefault 0 (overlap noOptions))"
    by (simp add: fixedStep_def noOptions_def orDefault_def)
  ultimately obtain r where f: "fixedLengthChunking w noOptions = Some r"
    using fixedLength_tokens_returns by blast
  have h: "recursiveTextSplitter 130000 w noOptions = Some r"
    by (simp add: recursiveTextSplitter_def fails f)
  from recursive_fallback_notes [OF h] h f fails
  have "recursiveTextSplitter 130000 w noOptions = Some r \<and>
       recursiveTry 130000 w noOptions = Inl RangeError \<and>
       fixedLengthChunking w noOptions = Some r \<and>
       prefix ''Text was divided into '' (notes_of (analysis r)) \<and>
       \<not> prefix ''Text was recursively split into '' (notes_of (analysis r))"
    by simp
  then show ?thesis
    unfolding w_def by (rule exI)
qed

section \<open>Coverage of fixed-length chunking\<close>


lemma length_tokenWindows: "length (tokenWindows toks cSize step K) = K"
  by (simp add: tokenWindows_def)





















section \<open>The placeholders of sentence-based chunking\<close>

text \<open>
  Claim C10, as stated, fails: the two replacements of \<open>postprocessText\<close> scan a sentence
  once each and never look at their own output. In \<open>_PLACE_PLACEHOLDER_HOLDER_\<close> the scan
  deletes the inner occurrence, and the two halves around it form the chunk text
  \<open>_PLACEHOLDER_\<close>.
\<close>

theorem sentenceBased_keeps_nested_marker:
  "map_option (\<lambda>r. map chunk_text (chunks r))
     (sentenceBasedChunking ''_PLACE_PLACEHOLDER_HOLDER_'' noOptions) = Some [''_PLACEHOLDER_'']"
  by (simp add: sentenceBasedChunking_def allSentences_def preprocessText_def postprocessText_def
      paragraphSentences_def hasTerminal_def rx_eval sentencesToProcess_def js_slice_def
      fixedStep_def noOptions_def orDefault_def sentenceLoop.simps mkResult_def textChunk_def)

lemma rx_split_from_sublist:
  "x \<in> set (rx_split_from m bef cur rest) \<Longrightarrow> sublist x (cur @ rest)"
proof (induction m bef cur rest rule: rx_split_from.induct)
  case (1 m bef cur)
  then show ?case by simp
next
  case (2 m bef cur c cs)
  show ?case
  proof (cases "m bef (c # cs)")
    case None
    with 2 show ?thesis by simp
  next
    case (Some n)
    show ?thesis
    proof (cases "n = 0")
      case True
      with 2 Some show ?thesis by simp
    next
      case False
      with 2(4) Some have "x = cur \<or> x \<in> set (rx_split_from m (rev (take n (c # cs)) @ bef) [] (drop n (c # cs)))"
        by simp
      then show ?thesis
      proof
        assume "x = cur"
        then show ?thesis by (simp add: sublist_append_rightI)
      next
        assume "x \<in> set (rx_split_from m (rev (take n (c # cs)) @ bef) [] (drop n (c # cs)))"
        with 2(3) [OF Some False] have "sublist x (drop n (c # cs))" by simp
        then have "sublist x (c # cs)"
          by (meson sublist_drop sublist_order.order.trans)
        then show ?thesis
          by (meson sublist_append_leftI sublist_order.order.trans)
      qed
    qed
  qed
qed

lemma rx_split_sublist: "x \<in> set (rx_split m s) \<Longrightarrow> sublist x s"
  using rx_split_from_sublist [of x m "[]" "[]" s] by (simp add: rx_split_def)

lemma sublist_trim: "sublist (trim s) s"
proof -
  have "suffix (dropWhile is_space s) s"
    by (rule suffix_dropWhile)
  moreover have "prefix (rev (dropWhile is_space (rev (dropWhile is_space s)))) (dropWhile is_space s)"
    by (metis prefix_def rev_append rev_rev_ident takeWhile_dropWhile_id)
  ultimately show ?thesis
    unfolding trim_def
    by (meson prefix_imp_sublist suffix_imp_sublist sublist_order.order.trans)
qed

lemma sublist_js_slice: "sublist (js_slice xs a b) xs"
  unfolding js_slice_def Let_def
  by (meson sublist_take sublist_drop sublist_order.order.trans)

lemma groupOf_slice: "groupOf ss (textChunk k (js_join '' '' (js_slice ss a b)))"
  using sublist_js_slice by (auto simp: groupOf_def textChunk_def)

lemma sentenceLoop_groups:
  assumes "sentenceLoop ss cSize step i cs = Some r" and "list_all (groupOf ss) cs"
  shows "list_all (groupOf ss) r"
proof -
  have "list_all (groupOf ss) cs \<longrightarrow> list_all (groupOf ss) r"
    by (rule sentenceLoop.raw_induct
          [where P = "\<lambda>ss cSize step i cs r. list_all (groupOf ss) cs \<longrightarrow> list_all (groupOf ss) r",
           OF _ assms(1)])
       (auto split: if_splits simp: groupOf_slice)
  with assms(2) show ?thesis by simp
qed

lemma paragraphSentences_stripped:
  assumes "s \<in> set (paragraphSentences p)" and "sublist p (preprocessText t)"
  shows "strippedPiece t s"
proof -
  have whole: "strippedPiece t (postprocessText p)"
    using assms(2) by (auto simp: strippedPiece_def)
  have part: "strippedPiece t (postprocessText (trim x))" if "x \<in> set (rx_split rx_sentenceEnd p)" for x
  proof -
    from that have "sublist x p" by (rule rx_split_sublist)
    with sublist_trim [of x] assms(2) have "sublist (trim x) (preprocessText t)"
      by (meson sublist_order.order.trans)
    then show ?thesis by (auto simp: strippedPiece_def)
  qed
  show ?thesis
  proof (cases "hasTerminal p")
    case False
    with assms(1) whole show ?thesis by (simp add: paragraphSentences_def)
  next
    case True
    show ?thesis
    proof (cases "filter (\<lambda>s. s \<noteq> []) (map (\<lambda>s. postprocessText (trim s)) (rx_split rx_sentenceEnd p))")
      case Nil
      with True assms(1) whole show ?thesis by (simp add: paragraphSentences_def)
    next
      case (Cons a as)
      with True assms(1) have "s \<in> set (filter (\<lambda>s. s \<noteq> []) (map (\<lambda>s. postprocessText (trim s)) (rx_split rx_sentenceEnd p)))"
        by (simp add: paragraphSentences_def)
      then obtain x where "x \<in> set (rx_split rx_sentenceEnd p)" "s = postprocessText (trim x)"
        by auto
      with part show ?thesis by simp
    qed
  qed
qed

lemma literal_scan_free:
  assumes "lit \<noteq> []" and "hd lit \<notin> set q"
  shows "rx_replace_from (rx_literal lit) f bef q = q"
  using assms(2)
proof (induction q arbitrary: bef)
  case Nil
  then show ?case by simp
next
  case (Cons c cs)
  from Cons.prems assms(1) have "\<not> prefix lit (c # cs)"
    by (cases lit) auto
  with Cons show ?case by (simp add: rx_literal_def)
qed

lemma literal_scan_isolated:
  assumes "lit \<noteq> []" and "hd lit \<notin> set u" and "hd lit \<notin> set v"
  shows "rx_replace_from (rx_literal lit) (\<lambda>t. []) bef (u @ lit @ v) = u @ v"
  using assms(2)
proof (induction u arbitrary: bef)
  case Nil
  obtain a list where lit: "lit = a # list"
    using assms(1) by (cases lit) auto
  have "rx_literal lit bef (lit @ v) = Some (length lit)"
    using assms(1) by (simp add: rx_literal_def)
  then have "rx_replace_from (rx_literal lit) (\<lambda>t. []) bef (lit @ v) =
      rx_replace_from (rx_literal lit) (\<lambda>t. []) (rev lit @ bef) v"
    by (simp add: lit)
  also have "\<dots> = v"
    using assms(1,3) by (rule literal_scan_free)
  finally show ?case by simp
next
  case (Cons c cs)
  from Cons.prems assms(1) have "\<not> prefix lit (c # cs @ lit @ v)"
    by (cases lit) auto
  with Cons show ?case by (simp add: rx_literal_def)
qed

lemma postprocessText_isolated_placeholder:
  assumes "CHR ''_'' \<notin> set u" and "CHR ''_'' \<notin> set v"
  shows "postprocessText (u @ ''_PLACEHOLDER_'' @ v) = u @ v"
proof -
  have "rx_replace (rx_literal ''_PLACEHOLDER_'') (\<lambda>t. []) (u @ ''_PLACEHOLDER_'' @ v) = u @ v"
    unfolding rx_replace_def using assms by (intro literal_scan_isolated) simp_all
  moreover have "rx_replace (rx_literal ''_DECIMAL_'') (\<lambda>t. []) (u @ v) = u @ v"
    unfolding rx_replace_def using assms by (intro literal_scan_free) simp_all
  ultimately show ?thesis by (simp add: postprocessText_def)
qed

lemma js_join_Cons_Cons: "js_join sep ((c # u) # us) = c # js_join sep (u # us)"
  by (cases us) simp_all

lemma js_join_Nil_Cons: "us \<noteq> [] \<Longrightarrow> js_join sep ([] # us) = sep @ js_join sep us"
  by (cases us) simp_all

lemma prefix_js_join: "prefix u (js_join sep (u # us))"
  by (cases us) simp_all

lemma literal_scan_deletion:
  assumes "lit \<noteq> []"
  shows "deletion lit q (rx_replace_from (rx_literal lit) (\<lambda>t. []) bef q)"
proof (induction "length q" arbitrary: q bef rule: less_induct)
  case less
  show ?case
  proof (cases q)
    case Nil
    have "[[]] \<noteq> [] \<and> [] = js_join lit [[]] \<and> [] = concat [[]] \<and>
        list_all (\<lambda>u. \<not> sublist lit u) [[]]"
      using assms by simp
    then show ?thesis
      unfolding deletion_def Nil by (intro exI [of _ "[[]]"]) simp
  next
    case (Cons c cs)
    show ?thesis
    proof (cases "prefix lit (c # cs)")
      case True
      then obtain rest where rest: "c # cs = lit @ rest"
        by (auto simp: prefix_def)
      have short: "length rest < length q"
        using rest assms Cons by (metis length_append length_greater_0_conv less_add_same_cancel2)
      have m: "rx_literal lit bef (c # cs) = Some (length lit)"
        using True assms by (simp add: rx_literal_def)
      have "rx_replace_from (rx_literal lit) (\<lambda>t. []) bef (c # cs) =
          rx_replace_from (rx_literal lit) (\<lambda>t. []) (rev (take (length lit) (c # cs)) @ bef)
            (drop (length lit) (c # cs))"
        using assms by (simp add: m)
      then have scan: "rx_replace_from (rx_literal lit) (\<lambda>t. []) bef q =
          rx_replace_from (rx_literal lit) (\<lambda>t. []) (rev lit @ bef) rest"
        unfolding Cons rest by simp
      from less [OF short, of "rev lit @ bef"] obtain us where us: "us \<noteq> []" "rest = js_join lit us"
        "rx_replace_from (rx_literal lit) (\<lambda>t. []) (rev lit @ bef) rest = concat us"
        "list_all (\<lambda>u. \<not> sublist lit u) us"
        unfolding deletion_def by blast
      have "[] # us \<noteq> [] \<and> q = js_join lit ([] # us) \<and>
          rx_replace_from (rx_literal lit) (\<lambda>t. []) bef q = concat ([] # us) \<and>
          list_all (\<lambda>u. \<not> sublist lit u) ([] # us)"
        using us assms rest Cons scan by (simp add: js_join_Nil_Cons)
      then show ?thesis
        unfolding deletion_def by blast
    next
      case False
      have scan: "rx_replace_from (rx_literal lit) (\<lambda>t. []) bef q =
          c # rx_replace_from (rx_literal lit) (\<lambda>t. []) (c # bef) cs"
        using False unfolding Cons by (simp add: rx_literal_def)
      have "length cs < length q"
        using Cons by simp
      from less [OF this, of "c # bef"] obtain us where us: "us \<noteq> []" "cs = js_join lit us"
        "rx_replace_from (rx_literal lit) (\<lambda>t. []) (c # bef) cs = concat us"
        "list_all (\<lambda>u. \<not> sublist lit u) us"
        unfolding deletion_def by blast
      from us(1) obtain u rest where split: "us = u # rest"
        by (cases us) auto
      have "prefix (c # u) (c # cs)"
        using prefix_js_join [of u lit rest] us(2) split by simp
      then have "\<not> prefix lit (c # u)"
        using False by (meson prefix_order.trans)
      moreover have "\<not> sublist lit u"
        using us(4) split by simp
      ultimately have free: "\<not> sublist lit (c # u)"
        by (simp add: sublist_Cons_right)
      have "(c # u) # rest \<noteq> [] \<and> q = js_join lit ((c # u) # rest) \<and>
          rx_replace_from (rx_literal lit) (\<lambda>t. []) bef q = concat ((c # u) # rest) \<and>
          list_all (\<lambda>u. \<not> sublist lit u) ((c # u) # rest)"
        using us split free scan Cons by (simp add: js_join_Cons_Cons)
      then show ?thesis
        unfolding deletion_def by blast
    qed
  qed
qed

lemma postprocessText_deletion:
  "\<exists>mid. deletion ''_PLACEHOLDER_'' q mid \<and> deletion ''_DECIMAL_'' mid (postprocessText q)"
proof -
  have "deletion ''_PLACEHOLDER_'' q (rx_replace (rx_literal ''_PLACEHOLDER_'') (\<lambda>t. []) q)"
    unfolding rx_replace_def by (rule literal_scan_deletion) simp
  moreover have "deletion ''_DECIMAL_'' (rx_replace (rx_literal ''_PLACEHOLDER_'') (\<lambda>t. []) q)
      (postprocessText q)"
    unfolding rx_replace_def postprocessText_def by (rule literal_scan_deletion) simp
  ultimately show ?thesis by blast
qed


lemma lastNewline_bound: "lastNewline ws = Some k \<Longrightarrow> k < length ws"
proof -
  assume a: "lastNewline ws = Some k"
  then obtain ks where "filter (\<lambda>k. ws ! k = CHR 0x0A) (rev [0..<length ws]) = k # ks"
    by (auto simp: lastNewline_def split: list.splits)
  then have "k \<in> set (filter (\<lambda>k. ws ! k = CHR 0x0A) (rev [0..<length ws]))"
    by simp
  then show ?thesis by simp
qed

lemma rx_blankline_spaces:
  assumes "rx_blankline bef s = Some n"
  shows "0 < n \<and> list_all is_space (take n s)"
proof -
  from assms obtain cs k where s: "s = CHR 0x0A # cs" and k: "lastNewline (takeWhile is_space cs) = Some k"
    and n: "n = k + 2"
    by (auto simp: rx_blankline_def split: list.splits if_splits option.splits)
  have "k < length (takeWhile is_space cs)"
    using k by (rule lastNewline_bound)
  moreover have "take (Suc k) (tw @ dw) = take (Suc k) tw" if "k < length tw" for tw dw :: string
    using that by simp
  ultimately have "take (Suc k) (takeWhile is_space cs @ dropWhile is_space cs) =
      take (Suc k) (takeWhile is_space cs)"
    by blast
  then have "take (Suc k) cs = take (Suc k) (takeWhile is_space cs)"
    by simp
  moreover have "list_all is_space (take (Suc k) (takeWhile is_space cs))"
    by (metis in_set_takeD list_all_iff set_takeWhileD)
  ultimately have "list_all is_space (take (Suc k) cs)"
    by simp
  then show ?thesis
    using s n by (simp add: is_space_def)
qed

lemma rx_split_from_all_empty:
  assumes "\<forall>x\<in>set (rx_split_from rx_blankline bef cur rest). x = []"
  shows "cur = [] \<and> list_all is_space rest"
  using assms
proof (induction "length rest" arbitrary: rest bef cur rule: less_induct)
  case less
  show ?case
  proof (cases rest)
    case Nil
    with less.prems show ?thesis by simp
  next
    case (Cons c cs)
    show ?thesis
    proof (cases "rx_blankline bef (c # cs)")
      case None
      with less.prems Cons have "\<forall>x\<in>set (rx_split_from rx_blankline (c # bef) (cur @ [c]) cs). x = []"
        by simp
      moreover have "length cs < length rest"
        using Cons by simp
      ultimately have "cur @ [c] = [] \<and> list_all is_space cs"
        by (rule less.hyps [rotated])
      then show ?thesis by simp
    next
      case (Some n)
      from rx_blankline_spaces [OF Some] have n: "0 < n" and sp: "list_all is_space (take n (c # cs))"
        by simp_all
      from less.prems Cons Some n have cur: "cur = []"
        and rec: "\<forall>x\<in>set (rx_split_from rx_blankline (rev (take n (c # cs)) @ bef) [] (drop n (c # cs))). x = []"
        by simp_all
      have "length (drop n (c # cs)) < length rest"
        using Cons n by simp
      from less.hyps [OF this rec] have "list_all is_space (drop n (c # cs))"
        by simp
      with sp have "list_all is_space (take n (c # cs) @ drop n (c # cs))"
        by (simp only: list_all_append)
      then show ?thesis
        using cur Cons by simp
    qed
  qed
qed

lemma replace_of_spaces:
  assumes "\<And>x. \<not> list_all is_space (f x)"
    and "list_all is_space (rx_replace_from m f bef s)"
  shows "rx_replace_from m f bef s = s"
  using assms(2)
proof (induction s arbitrary: bef)
  case Nil
  show ?case by simp
next
  case (Cons c cs)
  show ?case
  proof (cases "m bef (c # cs)")
    case None
    with Cons show ?thesis by simp
  next
    case (Some n)
    show ?thesis
    proof (cases "n = 0")
      case True
      with Cons Some show ?thesis by simp
    next
      case False
      with Cons.prems Some have "list_all is_space (f (take n (c # cs)))"
        by simp
      with assms(1) show ?thesis by blast
    qed
  qed
qed

lemma preprocessText_of_spaces:
  assumes "list_all is_space (preprocessText t)"
  shows "preprocessText t = t"
proof -
  have d: "\<not> list_all is_space (x @ ''_DECIMAL_'')" for x
    by (simp add: is_space_def)
  have p: "\<not> list_all is_space (butlast x @ ''_PLACEHOLDER_'' @ [last x])" for x
    by (simp add: is_space_def)
  let ?mid = "rx_replace rx_title (\<lambda>t. butlast t @ ''_PLACEHOLDER_'' @ [last t]) t"
  have one: "preprocessText t = ?mid"
    using assms unfolding preprocessText_def rx_replace_def
    by (intro replace_of_spaces [of "\<lambda>t. t @ ''_DECIMAL_''"] d) simp_all
  with assms have "list_all is_space ?mid"
    by simp
  then have "?mid = t"
    unfolding rx_replace_def
    by (intro replace_of_spaces [of "\<lambda>t. butlast t @ ''_PLACEHOLDER_'' @ [last t]"] p) simp_all
  with one show ?thesis by simp
qed

lemma paragraphSentences_not_Nil: "paragraphSentences p \<noteq> []"
  by (auto simp: paragraphSentences_def split: list.splits)

lemma concat_paragraphSentences_Nil:
  "concat (map paragraphSentences ps) = [] \<Longrightarrow> ps = []"
  by (cases ps) (simp_all add: paragraphSentences_not_Nil)

lemma postprocessText_no_underscore:
  assumes "CHR ''_'' \<notin> set q"
  shows "postprocessText q = q"
proof -
  have one: "rx_replace_from (rx_literal ''_PLACEHOLDER_'') (\<lambda>t. []) [] q = q"
    by (rule literal_scan_free) (use assms in simp_all)
  have two: "rx_replace_from (rx_literal ''_DECIMAL_'') (\<lambda>t. []) [] q = q"
    by (rule literal_scan_free) (use assms in simp_all)
  show ?thesis
    unfolding postprocessText_def rx_replace_def one two ..
qed

lemma no_paragraph_strippedPiece:
  assumes "filter (\<lambda>p. p \<noteq> []) (rx_split rx_blankline (preprocessText t)) = []"
  shows "strippedPiece t t"
proof -
  have "\<forall>x\<in>set (rx_split_from rx_blankline [] [] (preprocessText t)). \<not> x \<noteq> []"
    using assms unfolding filter_empty_conv rx_split_def .
  then have "\<forall>x\<in>set (rx_split_from rx_blankline [] [] (preprocessText t)). x = []"
    by blast
  then have "[] = ([] :: string) \<and> list_all is_space (preprocessText t)"
    by (rule rx_split_from_all_empty)
  then have sp: "list_all is_space (preprocessText t)" ..
  then have same: "preprocessText t = t"
    by (rule preprocessText_of_spaces)
  have "\<not> is_space CHR ''_''"
    by (simp add: is_space_def)
  moreover have "\<forall>c\<in>set t. is_space c"
    using sp unfolding same list_all_iff .
  ultimately have "CHR ''_'' \<notin> set t"
    by blast
  then have post: "postprocessText t = t"
    by (rule postprocessText_no_underscore)
  have "sublist t (preprocessText t) \<and> t = postprocessText t"
    unfolding same post by simp
  then show ?thesis
    unfolding strippedPiece_def by (rule exI)
qed

lemma allSentences_strippedPiece:
  assumes "s \<in> set (allSentences t)"
  shows "strippedPiece t s"
proof (cases "concat (map paragraphSentences
                    (filter (\<lambda>p. p \<noteq> []) (rx_split rx_blankline (preprocessText t))))")
  case Nil
  then have all: "allSentences t = [t]"
    unfolding allSentences_def by (simp only: list.case)
  have "filter (\<lambda>p. p \<noteq> []) (rx_split rx_blankline (preprocessText t)) = []"
    using Nil by (rule concat_paragraphSentences_Nil)
  then have "strippedPiece t t"
    by (rule no_paragraph_strippedPiece)
  moreover have "s = t"
    using assms unfolding all by simp
  ultimately show ?thesis by simp
next
  case (Cons a as)
  with assms have "s \<in> set (concat (map paragraphSentences
                    (filter (\<lambda>p. p \<noteq> []) (rx_split rx_blankline (preprocessText t)))))"
    by (simp add: allSentences_def)
  then obtain p where "p \<in> set (rx_split rx_blankline (preprocessText t))" "s \<in> set (paragraphSentences p)"
    by auto
  then show ?thesis
    using paragraphSentences_stripped rx_split_sublist by blast
qed

text \<open>
  Claim C10, amended. Every chunk text that sentence-based chunking returns is a group of
  consecutive sentences joined by spaces, and every sentence is \<open>postprocessText\<close> of a
  contiguous piece \<open>q\<close> of the preprocessed text, that is of a piece of the caller's text with
  the protective markers inserted. The first scan deletes occurrences of \<open>_PLACEHOLDER_\<close>, the
  caller's own included: \<open>q\<close> is a sequence of stretches with the marker between them, no
  stretch holds the marker, and what the scan leaves is the stretches put together. The
  second scan deletes the occurrences of \<open>_DECIMAL_\<close> from that in the same way. So a chunk
  text holds one of the markers only across a place where an occurrence was deleted, as in
  the example above; a marker that stands between texts without an underscore leaves
  nothing (\<open>postprocessText_isolated_placeholder\<close>).
\<close>

theorem sentenceBased_strips_by_single_scans:
  assumes "sentenceBasedChunking t options = Some r" and "c \<in> set (chunks r)"
  shows "\<exists>group. sublist group (allSentences t) \<and> chunk_text c = js_join '' '' group \<and>
           list_all (\<lambda>s. \<exists>q mid. sublist q (preprocessText t) \<and> s = postprocessText q \<and>
                        deletion ''_PLACEHOLDER_'' q mid \<and> deletion ''_DECIMAL_'' mid s) group"
proof -
  define ss where "ss = sentencesToProcess (allSentences t) (orDefault 5 (chunkSize options))
      (orDefault 0 (maxChunks options))"
  from assms(1) obtain cs where loop: "sentenceLoop ss (orDefault 5 (chunkSize options))
      (fixedStep (orDefault 5 (chunkSize options)) (orDefault 0 (overlap options))) 0 [] = Some cs"
    and r: "chunks r = cs"
    by (auto simp: sentenceBasedChunking_def Let_def ss_def mkResult_def split: option.splits)
  from sentenceLoop_groups [OF loop] have "list_all (groupOf ss) cs" by simp
  with assms(2) r obtain group where g: "sublist group ss" "chunk_text c = js_join '' '' group"
    by (auto simp: list_all_iff groupOf_def)
  have "sublist ss (allSentences t)"
    by (simp add: ss_def sentencesToProcess_def sublist_js_slice)
  with g(1) have sub: "sublist group (allSentences t)"
    by (meson sublist_order.order.trans)
  then have "set group \<subseteq> set (allSentences t)"
    by (rule set_mono_sublist)
  then have "list_all (strippedPiece t) group"
    using allSentences_strippedPiece [of _ t] by (auto simp: list_all_iff)
  moreover have "\<exists>q mid. sublist q (preprocessText t) \<and> s = postprocessText q \<and>
      deletion ''_PLACEHOLDER_'' q mid \<and> deletion ''_DECIMAL_'' mid s" if "strippedPiece t s" for s
  proof -
    from that obtain q where q: "sublist q (preprocessText t)" "s = postprocessText q"
      unfolding strippedPiece_def by blast
    from postprocessText_deletion [of q] obtain mid where
      "deletion ''_PLACEHOLDER_'' q mid" "deletion ''_DECIMAL_'' mid (postprocessText q)"
      by blast
    with q show ?thesis by blast
  qed
  ultimately have "list_all (\<lambda>s. \<exists>q mid. sublist q (preprocessText t) \<and> s = postprocessText q \<and>
      deletion ''_PLACEHOLDER_'' q mid \<and> deletion ''_DECIMAL_'' mid s) group"
    unfolding list_all_iff by blast
  with sub g(2) show ?thesis by blast
qed

lemma sentenceBased_nested_result:
  "sentenceBasedChunking ''_PLACE_PLACEHOLDER_HOLDER_'' noOptions =
     Some (mkResult [textChunk 0 ''_PLACEHOLDER_''] (sentenceNotes 1 5 0 0))"
  by (simp add: sentenceBasedChunking_def allSentences_def preprocessText_def postprocessText_def
      paragraphSentences_def hasTerminal_def rx_eval sentencesToProcess_def js_slice_def
      fixedStep_def noOptions_def orDefault_def sentenceLoop.simps)

theorem sentenceBased_strips_by_single_scans_witness:
  "sentenceBasedChunking ''_PLACE_PLACEHOLDER_HOLDER_'' noOptions =
     Some (mkResult [textChunk 0 ''_PLACEHOLDER_''] (sentenceNotes 1 5 0 0)) \<and>
   textChunk 0 ''_PLACEHOLDER_'' \<in> set (chunks (mkResult [textChunk 0 ''_PLACEHOLDER_''] (sentenceNotes 1 5 0 0))) \<and>
   (\<exists>group. sublist group (allSentences ''_PLACE_PLACEHOLDER_HOLDER_'') \<and>
      chunk_text (textChunk 0 ''_PLACEHOLDER_'') = js_join '' '' group \<and>
      list_all (\<lambda>s. \<exists>q mid. sublist q (preprocessText ''_PLACE_PLACEHOLDER_HOLDER_'') \<and>
                   s = postprocessText q \<and>
                   deletion ''_PLACEHOLDER_'' q mid \<and> deletion ''_DECIMAL_'' mid s) group)"
proof -
  have m: "textChunk 0 ''_PLACEHOLDER_'' \<in>
      set (chunks (mkResult [textChunk 0 ''_PLACEHOLDER_''] (sentenceNotes 1 5 0 0)))"
    by (simp add: mkResult_def)
  from sentenceBased_strips_by_single_scans [OF sentenceBased_nested_result m]
    sentenceBased_nested_result m
  show ?thesis by blast
qed

end
